theory Spec2Isabelle
  imports Main "HOL-Library.Multiset"
begin

section \<open>Data model\<close>

text \<open>
  The errors of \<^verbatim>\<open>utils/errors.js\<close> that the modelled code can raise, and the two
  JavaScript built-in errors it can run into. \<^verbatim>\<open>BadRequestError\<close> drops the message
  given to its constructor (its \<^verbatim>\<open>super\<close> call passes fixed texts), so every
  \<^verbatim>\<open>throw new BadRequestError(...)\<close> of \<^verbatim>\<open>table.js\<close> raises the same value.
\<close>

datatype app_error = BadRequestError | DatabaseError | TypeError | SyntaxError

text \<open>
  A \<^verbatim>\<open>Column\<close> object has the three attributes its constructor assigns. Identifiers,
  names and types are strings; the empty string is the falsy one, so \<^verbatim>\<open>!column.name\<close>
  is \<open>col_name c = []\<close>.
\<close>

record column =
  col_id :: string
  col_name :: string
  col_type :: string

text \<open>
  The argument object of \<^verbatim>\<open>new Column({id, name, type, options})\<close>. An absent
  \<^verbatim>\<open>id\<close> or \<^verbatim>\<open>options\<close> is \<open>None\<close>; the type of the options bag is left open.
\<close>

record 'o column_args =
  arg_id :: "string option"
  arg_name :: string
  arg_type :: string
  arg_options :: "'o option"

text \<open>
  \<^verbatim>\<open>constructor({ id = uuidv4(), name, type, options = {} })\<close>: the default of
  \<^verbatim>\<open>id\<close> is evaluated only when no id is given; \<open>u\<close> is the value \<^verbatim>\<open>uuidv4()\<close>
  returns in that case. The assignment of \<^verbatim>\<open>this.options\<close> is commented out in the
  source, so the object gets \<^verbatim>\<open>id\<close>, \<^verbatim>\<open>name\<close> and \<^verbatim>\<open>type\<close> only.
\<close>

definition Column :: "'o column_args \<Rightarrow> string \<Rightarrow> column" where
  "Column a u =
     \<lparr>col_id = (case arg_id a of None \<Rightarrow> u | Some i \<Rightarrow> i),
      col_name = arg_name a,
      col_type = arg_type a\<rparr>"

record table =
  tbl_id :: string
  tbl_name :: string
  columns :: "column list"
  getAllRule :: string
  getOneRule :: string
  createRule :: string
  updateRule :: string
  deleteRule :: string

definition API_RULES :: "string list" where
  "API_RULES = [''getAllRule'', ''getOneRule'', ''createRule'', ''updateRule'', ''deleteRule'']"

definition API_RULE_VALUES :: "string list" where
  "API_RULE_VALUES = [''public'', ''user'', ''creator'', ''admin'']"

definition DEFAULT_RULE :: string where
  "DEFAULT_RULE = ''public''"

text \<open>The property read \<^verbatim>\<open>this[rule]\<close> for the five names of \<open>API_RULES\<close>.\<close>

definition rule_value :: "table \<Rightarrow> string \<Rightarrow> string" where
  "rule_value t r =
     (if r = ''getAllRule'' then getAllRule t
      else if r = ''getOneRule'' then getOneRule t
      else if r = ''createRule'' then createRule t
      else if r = ''updateRule'' then updateRule t
      else deleteRule t)"

text \<open>
  The type registry \<^verbatim>\<open>Column.COLUMN_MAP\<close> is not part of the sources at hand; it is a
  parameter of the model, a finite table from type names to their metadata, of which the
  code reads the flag \<^verbatim>\<open>isJson\<close>.
\<close>

record column_meta =
  isJson :: bool

type_synonym column_map = "string \<Rightarrow> column_meta option"

text \<open>
  Modelled from the spec: \<^verbatim>\<open>Column.isValidType\<close> is called by \<^verbatim>\<open>Table.validate\<close> but its
  body is not in the sources. The spec says that a column's type "must resolve to a known
  entry" of the type registry, and the error message of \<^verbatim>\<open>validate\<close> lists the keys of
  \<^verbatim>\<open>COLUMN_MAP\<close> as the valid types.
\<close>

definition isValidType :: "column_map \<Rightarrow> string \<Rightarrow> bool" where
  "isValidType COLUMN_MAP ty = (COLUMN_MAP ty \<noteq> None)"

section \<open>Validation\<close>

text \<open>
  \<^verbatim>\<open>API_RULES.forEach\<close> with a \<^verbatim>\<open>throw\<close> in its callback: the first rule whose value
  is not allowed ends the loop.
\<close>

fun check_rules :: "table \<Rightarrow> string list \<Rightarrow> app_error + unit" where
  "check_rules t [] = Inr ()"
| "check_rules t (r # rs) =
     (if rule_value t r \<notin> set API_RULE_VALUES then Inl BadRequestError
      else check_rules t rs)"

text \<open>\<^verbatim>\<open>Table.validate\<close>, check by check in the order of the source.\<close>

definition validate :: "column_map \<Rightarrow> table \<Rightarrow> app_error + unit" where
  "validate COLUMN_MAP t =
     (if tbl_id t = [] then Inl BadRequestError
      else if tbl_name t = [] then Inl BadRequestError
      else if length (columns t) = 0 then Inl BadRequestError
      else if \<not> list_all (\<lambda>c. col_id c \<noteq> []) (columns t) then Inl BadRequestError
      else if \<not> list_all (\<lambda>c. col_name c \<noteq> []) (columns t) then Inl BadRequestError
      else if \<not> list_all (\<lambda>c. col_type c \<noteq> []) (columns t) then Inl BadRequestError
      else if \<not> list_all (\<lambda>c. isValidType COLUMN_MAP (col_type c)) (columns t)
        then Inl BadRequestError
      else if list_ex (\<lambda>c. col_name c = ''id'' \<or> col_name c = ''created_at''
                            \<or> col_name c = ''updated_at'') (columns t)
        then Inl BadRequestError
      else (let colNames = map col_name (columns t);
                setNames = set colNames
            in if length colNames \<noteq> card setNames then Inl BadRequestError
               else check_rules t API_RULES))"

text \<open>
  The argument object of \<^verbatim>\<open>new Table({...})\<close>. An absent field is \<open>None\<close> and takes
  the default of the parameter list. \<^verbatim>\<open>columns\<close> is an array of column objects or, when
  the table is read back from the catalog, the JSON text of one.
\<close>

datatype 'o columns_arg = ColumnsJson string | ColumnsArray "'o column_args list"

record 'o table_args =
  targ_id :: "string option"
  targ_name :: "string option"
  targ_columns :: "'o columns_arg option"
  targ_getAllRule :: "string option"
  targ_getOneRule :: "string option"
  targ_createRule :: "string option"
  targ_updateRule :: "string option"
  targ_deleteRule :: "string option"

text \<open>
  \<^verbatim>\<open>columns.map((column) => new Column({ ...column }))\<close>. Every \<^verbatim>\<open>uuidv4()\<close> call of
  one construction takes the next value of the generator \<open>uuid\<close>; \<open>k\<close> counts the calls
  made so far.
\<close>

fun new_columns :: "(nat \<Rightarrow> string) \<Rightarrow> nat \<Rightarrow> 'o column_args list \<Rightarrow> column list" where
  "new_columns uuid k [] = []"
| "new_columns uuid k (a # as) =
     Column a (uuid k) # new_columns uuid (if arg_id a = None then Suc k else k) as"

text \<open>
  What \<^verbatim>\<open>JSON.parse(columns)\<close> makes of a text: it throws a \<^verbatim>\<open>SyntaxError\<close> when
  the text is no JSON; it gives a value that is no array, on which \<^verbatim>\<open>columns.map\<close> then
  throws a \<^verbatim>\<open>TypeError\<close>; or it gives an array, whose elements are read as the
  argument objects of \<^verbatim>\<open>new Column\<close>.
\<close>

datatype 'o parsed_columns = NoJson | NoArray | ColumnArray "'o column_args list"

text \<open>
  The assignments of the constructor, before its call of \<^verbatim>\<open>validate\<close>. \<open>JSON_parse\<close>
  stands for the built-in \<^verbatim>\<open>JSON.parse\<close> on the text given as \<^verbatim>\<open>columns\<close>.
\<close>

definition assign_fields ::
  "(string \<Rightarrow> 'o parsed_columns) \<Rightarrow> (nat \<Rightarrow> string) \<Rightarrow> 'o table_args
     \<Rightarrow> app_error + table" where
  "assign_fields JSON_parse uuid a =
     (let k = (if targ_id a = None then Suc 0 else 0);
          parsed = (case targ_columns a of
                      None \<Rightarrow> ColumnArray []
                    | Some (ColumnsArray cs) \<Rightarrow> ColumnArray cs
                    | Some (ColumnsJson s) \<Rightarrow> JSON_parse s)
      in case parsed of
           NoJson \<Rightarrow> Inl SyntaxError
         | NoArray \<Rightarrow> Inl TypeError
         | ColumnArray cs \<Rightarrow> Inr
             \<lparr>tbl_id = (case targ_id a of None \<Rightarrow> uuid 0 | Some i \<Rightarrow> i),
              tbl_name = (case targ_name a of None \<Rightarrow> [] | Some n \<Rightarrow> n),
              columns = new_columns uuid k cs,
              getAllRule = (case targ_getAllRule a of None \<Rightarrow> DEFAULT_RULE | Some r \<Rightarrow> r),
              getOneRule = (case targ_getOneRule a of None \<Rightarrow> DEFAULT_RULE | Some r \<Rightarrow> r),
              createRule = (case targ_createRule a of None \<Rightarrow> DEFAULT_RULE | Some r \<Rightarrow> r),
              updateRule = (case targ_updateRule a of None \<Rightarrow> DEFAULT_RULE | Some r \<Rightarrow> r),
              deleteRule = (case targ_deleteRule a of None \<Rightarrow> DEFAULT_RULE | Some r \<Rightarrow> r)\<rparr>)"

text \<open>\<^verbatim>\<open>new Table(fields)\<close>: the assignments, then \<^verbatim>\<open>this.validate()\<close>.\<close>

definition Table ::
  "column_map \<Rightarrow> (string \<Rightarrow> 'o parsed_columns) \<Rightarrow> (nat \<Rightarrow> string)
     \<Rightarrow> 'o table_args \<Rightarrow> app_error + table" where
  "Table COLUMN_MAP JSON_parse uuid a =
     (case assign_fields JSON_parse uuid a of
        Inl e \<Rightarrow> Inl e
      | Inr t \<Rightarrow> (case validate COLUMN_MAP t of Inl e \<Rightarrow> Inl e | Inr u \<Rightarrow> Inr t))"

text \<open>\<^verbatim>\<open>validateUpdateTo\<close>: the one check of the source; the rest of its body is comments.\<close>

definition validateUpdateTo :: "table \<Rightarrow> table \<Rightarrow> app_error + unit" where
  "validateUpdateTo this newTable =
     (if tbl_id this \<noteq> tbl_id newTable then Inl BadRequestError else Inr ())"

definition getColumnById :: "table \<Rightarrow> string \<Rightarrow> column option" where
  "getColumnById t i = find (\<lambda>column. col_id column = i) (columns t)"

section \<open>Schema updates\<close>

text \<open>
  The calls a migration makes on the data access object. The \<^verbatim>\<open>DAO\<close> class is outside
  the sources, so a call is a value and the object that executes it a parameter. The
  catalog row \<^verbatim>\<open>{...table, columns: table.stringifyColumns()}\<close> is determined by the
  table and is represented by it; \<^verbatim>\<open>JSON.stringify\<close> of a table or a column, spliced into
  the migration file and read back as an object literal, gives the same table or column.
\<close>

datatype dao_op =
    CreateTable table
  | AddTableMetaData table
  | DropTable string
  | DeleteTableMetaData string
  | DropColumn string string
  | AddColumn string column
  | RenameColumn string string string
  | RenameTable string string
  | UpdateTableMetaData table

text \<open>
  The first loop of \<^verbatim>\<open>up\<close> and \<^verbatim>\<open>down\<close>:
  \<^verbatim>\<open>for (let oldColumn of oldColumns) { if (newColumns.find(...)) continue; dropColumn }\<close>.
  \<open>tn\<close> is \<^verbatim>\<open>oldTable.name\<close>.
\<close>

fun dropColumns :: "string \<Rightarrow> column list \<Rightarrow> column list \<Rightarrow> dao_op list" where
  "dropColumns tn [] newColumns = []"
| "dropColumns tn (oldColumn # rest) newColumns =
     (if find (\<lambda>newColumn. col_id oldColumn = col_id newColumn) newColumns \<noteq> None
      then dropColumns tn rest newColumns
      else DropColumn tn (col_name oldColumn) # dropColumns tn rest newColumns)"

text \<open>
  The second loop: \<^verbatim>\<open>match\<close> is the first old column with the id of the new one;
  \<^verbatim>\<open>if (!match) addColumn\<close>, then \<^verbatim>\<open>if (match && match.name !== newColumn.name) renameColumn\<close>.
\<close>

fun addOrRenameColumns :: "string \<Rightarrow> column list \<Rightarrow> column list \<Rightarrow> dao_op list" where
  "addOrRenameColumns tn oldColumns [] = []"
| "addOrRenameColumns tn oldColumns (newColumn # rest) =
     (let match = find (\<lambda>oldColumn. col_id oldColumn = col_id newColumn) oldColumns
      in (if match = None then [AddColumn tn newColumn] else []) @
         (case match of
            None \<Rightarrow> []
          | Some m \<Rightarrow>
              if col_name m \<noteq> col_name newColumn
              then [RenameColumn tn (col_name m) (col_name newColumn)] else []) @
         addOrRenameColumns tn oldColumns rest)"

definition renameTable :: "table \<Rightarrow> table \<Rightarrow> dao_op list" where
  "renameTable oldTable newTable =
     (if tbl_name oldTable \<noteq> tbl_name newTable
      then [RenameTable (tbl_name oldTable) (tbl_name newTable)] else [])"

text \<open>
  The structural operations of one direction, in the order of the calls: the two loops
  and the rename of the table.
\<close>

definition diff :: "table \<Rightarrow> table \<Rightarrow> dao_op list" where
  "diff oldTable newTable =
     dropColumns (tbl_name oldTable) (columns oldTable) (columns newTable) @
     addOrRenameColumns (tbl_name oldTable) (columns oldTable) (columns newTable) @
     renameTable oldTable newTable"

text \<open>
  \<^verbatim>\<open>up\<close> of the update template binds \<^verbatim>\<open>oldTable\<close> to \<^verbatim>\<open>this\<close> and \<^verbatim>\<open>newTable\<close>
  to the argument and ends with the catalog row of the new table; \<^verbatim>\<open>down\<close> repeats the
  text with the two bindings exchanged and ends with the catalog row of \<^verbatim>\<open>this\<close>.
\<close>

definition update_up :: "table \<Rightarrow> table \<Rightarrow> dao_op list" where
  "update_up this newTable = diff this newTable @ [UpdateTableMetaData newTable]"

definition update_down :: "table \<Rightarrow> table \<Rightarrow> dao_op list" where
  "update_down this newTable = diff newTable this @ [UpdateTableMetaData this]"

text \<open>
  The inverse of an operation as the spec words it: "a drop becomes an add of the same
  definition; a rename reverses its two names; a table rename reverses direction", an add
  becomes a drop, and the catalog gets the old table back. The source has no such function
  (it runs the same loops with the tables exchanged); this one is what the source is
  compared with. An inverted column operation addresses the table by the name it has
  after the forward direction, and the definition of a dropped column is looked up by
  name in the old table.
\<close>

fun invert_op :: "table \<Rightarrow> table \<Rightarrow> dao_op \<Rightarrow> dao_op" where
  "invert_op oldTable newTable (AddColumn tn c) = DropColumn (tbl_name newTable) (col_name c)"
| "invert_op oldTable newTable (DropColumn tn cn) =
     (case find (\<lambda>c. col_name c = cn) (columns oldTable) of
        Some c \<Rightarrow> AddColumn (tbl_name newTable) c
      | None \<Rightarrow> DropColumn tn cn)"
| "invert_op oldTable newTable (RenameColumn tn a b) = RenameColumn (tbl_name newTable) b a"
| "invert_op oldTable newTable (RenameTable a b) = RenameTable b a"
| "invert_op oldTable newTable (UpdateTableMetaData t) = UpdateTableMetaData oldTable"
| "invert_op oldTable newTable (CreateTable t) = CreateTable t"
| "invert_op oldTable newTable (AddTableMetaData t) = AddTableMetaData t"
| "invert_op oldTable newTable (DropTable n) = DropTable n"
| "invert_op oldTable newTable (DeleteTableMetaData i) = DeleteTableMetaData i"

text \<open>
  Which operations of a diff concern the column with id \<open>i\<close>: an add carries the column;
  a drop and a rename carry names, the name the column has in the old table and, for the
  target of a rename, the name it has in the new one.
\<close>

fun is_add_of :: "string \<Rightarrow> dao_op \<Rightarrow> bool" where
  "is_add_of i (AddColumn tn c) = (col_id c = i)"
| "is_add_of i other = False"

fun is_drop_of :: "table \<Rightarrow> string \<Rightarrow> dao_op \<Rightarrow> bool" where
  "is_drop_of oldTable i (DropColumn tn cn) =
     (case getColumnById oldTable i of Some c \<Rightarrow> cn = col_name c | None \<Rightarrow> False)"
| "is_drop_of oldTable i other = False"

fun is_rename_of :: "table \<Rightarrow> table \<Rightarrow> string \<Rightarrow> dao_op \<Rightarrow> bool" where
  "is_rename_of oldTable newTable i (RenameColumn tn a b) =
     ((case getColumnById oldTable i of Some c \<Rightarrow> a = col_name c | None \<Rightarrow> False) \<or>
      (case getColumnById newTable i of Some c \<Rightarrow> b = col_name c | None \<Rightarrow> False))"
| "is_rename_of oldTable newTable i other = False"

section \<open>Migrations\<close>

text \<open>
  The \<^verbatim>\<open>up\<close> and the \<^verbatim>\<open>down\<close> function of a migration file that loads. Their calls
  do not depend on what the data access object answers, so each function is the list of
  its calls.
\<close>

record migration =
  mig_up :: "dao_op list"
  mig_down :: "dao_op list"

text \<open>
  A migration file is text, loaded as a module when it is run. The update template
  splices every value through \<^verbatim>\<open>JSON.stringify\<close>, so its files load. The templates of
  \<^verbatim>\<open>create\<close> and \<^verbatim>\<open>drop\<close> splice the name and the id of the table between double
  quotes as they are, \<^verbatim>\<open>dao.dropTable("${this.name}")\<close> and
  \<^verbatim>\<open>dao.deleteTableMetaData("${this.id}")\<close>; a file in which such text does not read
  as a string does not load, neither its \<^verbatim>\<open>up\<close> nor its \<^verbatim>\<open>down\<close>.
\<close>

datatype migration_file = Module migration | Unloadable

text \<open>
  What the methods act on: the store behind the data access object, the number of open
  connections, the migration files written so far, oldest first, and how many of them,
  from the oldest on, have run through (knex keeps the list of those in a table of its
  own and takes the files in the order of their names, which begin with the time of
  their making).
\<close>

record 'db world =
  store :: 'db
  connections :: nat
  migration_files :: "(string \<times> migration_file) list"
  completed :: nat

type_synonym 'db dao = "dao_op \<Rightarrow> 'db \<Rightarrow> app_error + 'db"

definition getNewConnection :: "'db world \<Rightarrow> 'db world" where
  "getNewConnection w = w\<lparr>connections := Suc (connections w)\<rparr>"

definition destroy :: "'db world \<Rightarrow> 'db world" where
  "destroy w = w\<lparr>connections := connections w - 1\<rparr>"

text \<open>
  \<^verbatim>\<open>db.migrate.make(name)\<close> creates the file and \<^verbatim>\<open>fs.writeFileSync\<close> gives it its
  content; the model records the file once, with that content. Both calls are taken to
  succeed: a file system that refuses the file is outside the model.
\<close>

definition write_migration :: "string \<Rightarrow> migration_file \<Rightarrow> 'db world \<Rightarrow> 'db world" where
  "write_migration name f w = w\<lparr>migration_files := migration_files w @ [(name, f)]\<rparr>"

text \<open>
  The awaited calls of a migration function, one after the other; a call that throws ends
  the function, and what the earlier calls did stays done.
\<close>

fun run_ops :: "'db dao \<Rightarrow> dao_op list \<Rightarrow> 'db \<Rightarrow> app_error option \<times> 'db" where
  "run_ops dao [] db = (None, db)"
| "run_ops dao (x # xs) db =
     (case dao x db of Inl e \<Rightarrow> (Some e, db) | Inr db' \<Rightarrow> run_ops dao xs db')"

text \<open>
  \<^verbatim>\<open>db.migrate.up()\<close> runs the \<^verbatim>\<open>up\<close> function of the next migration that has not run
  yet: the oldest file that has not run through, which is the file just written only
  when no older one is pending. A file that does not load throws a \<^verbatim>\<open>SyntaxError\<close>
  before any call is made; a file whose \<^verbatim>\<open>up\<close> throws stays pending, and so does a
  file that does not load. With no file pending nothing is run.
\<close>

definition migrate_up :: "'db dao \<Rightarrow> 'db world \<Rightarrow> app_error option \<times> 'db world" where
  "migrate_up dao w =
     (case drop (completed w) (migration_files w) of
        [] \<Rightarrow> (None, w)
      | f # later \<Rightarrow>
          (case snd f of
             Unloadable \<Rightarrow> (Some SyntaxError, w)
           | Module m \<Rightarrow>
               (case run_ops dao (mig_up m) (store w) of
                  (None, db') \<Rightarrow> (None, w\<lparr>store := db', completed := Suc (completed w)\<rparr>)
                | (Some e, db') \<Rightarrow> (Some e, w\<lparr>store := db'\<rparr>))))"

text \<open>
  The two statements of the \<^verbatim>\<open>create\<close> and \<^verbatim>\<open>drop\<close> templates that splice the name
  and the id between double quotes. \<open>quoted\<close> stands for the JavaScript reader: \<open>quoted s\<close>
  is \<open>Some v\<close> when the characters \<open>s\<close> between two double quotes read as a string with
  the value \<open>v\<close>, and \<open>None\<close> when the file with them does not load. The calls are the
  ones the file makes when both texts read as strings. (Text that ends the string and
  goes on as statements of its own is beyond a list of calls.)
\<close>

definition quoted_calls :: "(string \<Rightarrow> string option) \<Rightarrow> table \<Rightarrow> dao_op list option" where
  "quoted_calls quoted this =
     (case quoted (tbl_name this) of
        None \<Rightarrow> None
      | Some n \<Rightarrow>
          (case quoted (tbl_id this) of
             None \<Rightarrow> None
           | Some i \<Rightarrow> Some [DropTable n, DeleteTableMetaData i]))"

text \<open>
  \<^verbatim>\<open>Table.create\<close>. \<open>findTableByName\<close> is the catalog query of the data access object.
  The table and its catalog row go into \<^verbatim>\<open>up\<close> through \<^verbatim>\<open>JSON.stringify\<close>, the
  name and the id into \<^verbatim>\<open>down\<close> between double quotes. An exception of
  \<^verbatim>\<open>db.migrate.up()\<close> leaves the method at once: the call of \<^verbatim>\<open>db.destroy()\<close> after
  it is not in a \<^verbatim>\<open>finally\<close> block.
\<close>

definition create ::
  "('db \<Rightarrow> string \<Rightarrow> table list) \<Rightarrow> (string \<Rightarrow> string option) \<Rightarrow> 'db dao \<Rightarrow> table
     \<Rightarrow> 'db world \<Rightarrow> (app_error + unit) \<times> 'db world" where
  "create findTableByName quoted dao this w =
     (let existingTable = findTableByName (store w) (tbl_name this)
      in if length existingTable \<noteq> 0 then (Inl BadRequestError, w)
         else
           (let db = getNewConnection w;
                written = write_migration (''create_table_'' @ tbl_name this)
                  (case quoted_calls quoted this of
                     None \<Rightarrow> Unloadable
                   | Some calls \<Rightarrow>
                       Module \<lparr>mig_up = [CreateTable this, AddTableMetaData this],
                               mig_down = calls\<rparr>) db
            in case migrate_up dao written of
                 (Some e, w') \<Rightarrow> (Inl e, w')
               | (None, w') \<Rightarrow> (Inr (), destroy w')))"

text \<open>\<^verbatim>\<open>Table.drop\<close>: the same two statements, now in \<^verbatim>\<open>up\<close>.\<close>

definition drop_table ::
  "(string \<Rightarrow> string option) \<Rightarrow> 'db dao \<Rightarrow> table \<Rightarrow> 'db world
     \<Rightarrow> (app_error + unit) \<times> 'db world" where
  "drop_table quoted dao this w =
     (let db = getNewConnection w;
          written = write_migration (''drop_table_'' @ tbl_name this)
            (case quoted_calls quoted this of
               None \<Rightarrow> Unloadable
             | Some calls \<Rightarrow>
                 Module \<lparr>mig_up = calls,
                         mig_down = [CreateTable this, AddTableMetaData this]\<rparr>) db
      in case migrate_up dao written of
           (Some e, w') \<Rightarrow> (Inl e, w')
         | (None, w') \<Rightarrow> (Inr (), destroy w'))"

definition updateTo ::
  "'db dao \<Rightarrow> table \<Rightarrow> table \<Rightarrow> 'db world \<Rightarrow> (app_error + unit) \<times> 'db world" where
  "updateTo dao this newTable w =
     (case validateUpdateTo this newTable of
        Inl e \<Rightarrow> (Inl e, w)
      | Inr u \<Rightarrow>
          (let db = getNewConnection w;
               written = write_migration (''update_table_'' @ tbl_name this)
                 (Module \<lparr>mig_up = update_up this newTable,
                          mig_down = update_down this newTable\<rparr>) db
           in case migrate_up dao written of
                (Some e, w') \<Rightarrow> (Inl e, w')
              | (None, w') \<Rightarrow> (Inr (), destroy w')))"

section \<open>Rehydration of rows\<close>

text \<open>
  Modelled from the spec: \<^verbatim>\<open>parseJsonColumns\<close> calls \<^verbatim>\<open>table.getColumnByName(key)\<close>,
  a method the \<^verbatim>\<open>Table\<close> class at hand does not have. It is taken to be the sibling of
  \<^verbatim>\<open>getColumnById\<close>, the first column with that name; the caller's \<^verbatim>\<open>?.\<close> expects it
  to give nothing when there is none.
\<close>

definition getColumnByName :: "table \<Rightarrow> string \<Rightarrow> column option" where
  "getColumnByName t n = find (\<lambda>column. col_name column = n) (columns t)"

text \<open>
  The body of the inner loop for one key of a row. \<^verbatim>\<open>column?.type\<close> is undefined when
  there is no column, and \<^verbatim>\<open>COLUMN_MAP[undefined]\<close> reads the property named
  \<^verbatim>\<open>undefined\<close>; reading \<^verbatim>\<open>.isJson\<close> of a missing entry throws a \<^verbatim>\<open>TypeError\<close>,
  which nothing catches. \<open>JSON_parse\<close> stands for the built-in \<^verbatim>\<open>JSON.parse\<close>,
  \<open>None\<close> for its exception, which the \<^verbatim>\<open>catch\<close> answers with \<^verbatim>\<open>continue\<close>.
\<close>

definition parse_key ::
  "column_map \<Rightarrow> ('v \<Rightarrow> 'v option) \<Rightarrow> table \<Rightarrow> string \<times> 'v \<Rightarrow> app_error + string \<times> 'v" where
  "parse_key COLUMN_MAP JSON_parse t kv =
     (let key = fst kv in
      if key = ''id'' \<or> key = ''created_at'' \<or> key = ''updated_at'' then Inr kv
      else
        (let column = getColumnByName t key;
             columnType = (case column of None \<Rightarrow> ''undefined'' | Some c \<Rightarrow> col_type c)
         in case COLUMN_MAP columnType of
              None \<Rightarrow> Inl TypeError
            | Some meta \<Rightarrow>
                if isJson meta
                then (case JSON_parse (snd kv) of
                        Some v \<Rightarrow> Inr (key, v)
                      | None \<Rightarrow> Inr kv)
                else Inr kv))"

text \<open>
  A row is the list of its keys and values in the order \<^verbatim>\<open>for (let key in row)\<close> visits
  them. The rows are changed in place, so an exception leaves the keys visited before it
  rewritten and the rest as they were: the result is the exception, if any, and the rows
  as they are afterwards.
\<close>

fun parse_row ::
  "column_map \<Rightarrow> ('v \<Rightarrow> 'v option) \<Rightarrow> table \<Rightarrow> (string \<times> 'v) list
     \<Rightarrow> app_error option \<times> (string \<times> 'v) list" where
  "parse_row COLUMN_MAP JSON_parse t [] = (None, [])"
| "parse_row COLUMN_MAP JSON_parse t (kv # rest) =
     (case parse_key COLUMN_MAP JSON_parse t kv of
        Inl e \<Rightarrow> (Some e, kv # rest)
      | Inr kv' \<Rightarrow>
          (case parse_row COLUMN_MAP JSON_parse t rest of
             (r, rest') \<Rightarrow> (r, kv' # rest')))"

fun parseJsonColumns ::
  "column_map \<Rightarrow> ('v \<Rightarrow> 'v option) \<Rightarrow> table \<Rightarrow> (string \<times> 'v) list list
     \<Rightarrow> app_error option \<times> (string \<times> 'v) list list" where
  "parseJsonColumns COLUMN_MAP JSON_parse t [] = (None, [])"
| "parseJsonColumns COLUMN_MAP JSON_parse t (row # rows) =
     (case parse_row COLUMN_MAP JSON_parse t row of
        (Some e, row') \<Rightarrow> (Some e, row' # rows)
      | (None, row') \<Rightarrow>
          (case parseJsonColumns COLUMN_MAP JSON_parse t rows of
             (r, rows') \<Rightarrow> (r, row' # rows')))"

section \<open>Example data\<close>

text \<open>
  A registry with four types, one of them stored as JSON text, and revisions of the table
  of the spec's scenario: \<open>seals_v1\<close> with the column \<^verbatim>\<open>age\<close>, \<open>seals_v2\<close> with
  \<^verbatim>\<open>age\<close> renamed to \<^verbatim>\<open>years\<close> and a column \<^verbatim>\<open>weight\<close> added, \<open>seals_v3\<close> without
  the first column and under a new table name. \<open>seals_dup\<close> and \<open>seals_twice\<close> use a
  column id twice.
\<close>

definition example_COLUMN_MAP :: column_map where
  "example_COLUMN_MAP =
     map_of [(''int'', \<lparr>isJson = False\<rparr>), (''float'', \<lparr>isJson = False\<rparr>),
             (''text'', \<lparr>isJson = False\<rparr>), (''json'', \<lparr>isJson = True\<rparr>)]"

definition seals :: "string \<Rightarrow> column list \<Rightarrow> table" where
  "seals n cs =
     \<lparr>tbl_id = ''T1'', tbl_name = n, columns = cs,
      getAllRule = ''public'', getOneRule = ''public'', createRule = ''user'',
      updateRule = ''creator'', deleteRule = ''admin''\<rparr>"

definition age :: column where
  "age = \<lparr>col_id = ''C1'', col_name = ''age'', col_type = ''int''\<rparr>"

definition years :: column where
  "years = \<lparr>col_id = ''C1'', col_name = ''years'', col_type = ''int''\<rparr>"

definition weight :: column where
  "weight = \<lparr>col_id = ''C2'', col_name = ''weight'', col_type = ''float''\<rparr>"

definition mass :: column where
  "mass = \<lparr>col_id = ''C2'', col_name = ''mass'', col_type = ''float''\<rparr>"

definition seals_v1 :: table where
  "seals_v1 = seals ''seals'' [age]"

definition seals_v2 :: table where
  "seals_v2 = seals ''seals'' [years, weight]"

definition seals_v3 :: table where
  "seals_v3 = seals ''pinnipeds'' [weight]"

definition seals_dup :: table where
  "seals_dup = seals ''seals'' [age, years]"

definition seals_twice :: table where
  "seals_twice = seals ''seals'' [age, weight, mass]"

definition tags :: column where
  "tags = \<lparr>col_id = ''C3'', col_name = ''tags'', col_type = ''json''\<rparr>"

definition seals_v4 :: table where
  "seals_v4 = seals ''seals'' [age, tags]"

text \<open>
  Three data access objects over a store that is the list of the calls made: one records
  every call, one fails every call, one records every call but fails the adding of a
  catalog row. The catalog query finds the tables whose catalog row was added.
\<close>

definition recording_dao :: "dao_op list dao" where
  "recording_dao x db = Inr (db @ [x])"

definition failing_dao :: "dao_op list dao" where
  "failing_dao x db = Inl DatabaseError"


definition recorded_tables :: "dao_op list \<Rightarrow> string \<Rightarrow> table list" where
  "recorded_tables db n =
     concat (map (\<lambda>x. case x of
                          AddTableMetaData t \<Rightarrow> if tbl_name t = n then [t] else []
                        | other \<Rightarrow> []) db)"

definition empty_world :: "dao_op list world" where
  "empty_world = \<lparr>store = [], connections = 0, migration_files = [], completed = 0\<rparr>"

text \<open>
  A stand-in for the JavaScript reader of text between double quotes: text without a
  double quote, a backslash or a line break reads as itself, and the text of the example
  below, with a lone double quote in it, does not load. \<open>quoted_seals\<close> is a table with
  that name.
\<close>

definition plain_quoted :: "string \<Rightarrow> string option" where
  "plain_quoted s =
     (if list_ex (\<lambda>c. c = CHR 0x22 \<or> c = CHR 0x5C \<or> c = CHR 0x0A \<or> c = CHR 0x0D) s
      then None else Some s)"


text \<open>
  Values of rows, and a stand-in for \<^verbatim>\<open>JSON.parse\<close> that decodes the one text the
  examples store and fails on everything else.
\<close>

datatype json = JString string | JNumber int | JArray "json list"

definition example_JSON_parse :: "json \<Rightarrow> json option" where
  "example_JSON_parse v =
     (if v = JString ''[1,2]'' then Some (JArray [JNumber 1, JNumber 2]) else None)"

section \<open>Properties of validation\<close>

lemmas example_defs =
  seals_v1_def seals_v2_def seals_v3_def seals_v4_def seals_dup_def seals_twice_def seals_def
  age_def years_def weight_def mass_def tags_def example_COLUMN_MAP_def API_RULE_VALUES_def

lemma check_rules_Inr:
  "check_rules t rs = Inr () \<longleftrightarrow> (\<forall>r \<in> set rs. rule_value t r \<in> set API_RULE_VALUES)"
  by (induction rs) auto

lemma check_rules_cases:
  "check_rules t rs = Inr () \<or> check_rules t rs = Inl BadRequestError"
  by (induction rs) auto

lemma unique_names_iff:
  "length (map f xs) \<noteq> card (set (map f xs)) \<longleftrightarrow> \<not> distinct (map f xs)"
  using card_distinct [of "map f xs"] distinct_card [of "map f xs"] by auto

lemma rule_values_all:
  "(\<forall>r \<in> set API_RULES. rule_value t r \<in> set API_RULE_VALUES) \<longleftrightarrow>
     getAllRule t \<in> set API_RULE_VALUES \<and> getOneRule t \<in> set API_RULE_VALUES \<and>
     createRule t \<in> set API_RULE_VALUES \<and> updateRule t \<in> set API_RULE_VALUES \<and>
     deleteRule t \<in> set API_RULE_VALUES"
  by (simp add: API_RULES_def rule_value_def)

lemma validate_Inr_iff:
  "validate M t = Inr () \<longleftrightarrow>
     tbl_id t \<noteq> [] \<and> tbl_name t \<noteq> [] \<and> columns t \<noteq> [] \<and>
     (\<forall>c \<in> set (columns t). col_id c \<noteq> [] \<and> col_name c \<noteq> [] \<and> col_type c \<noteq> []) \<and>
     (\<forall>c \<in> set (columns t). M (col_type c) \<noteq> None) \<and>
     (\<forall>c \<in> set (columns t). col_name c \<notin> {''id'', ''created_at'', ''updated_at''}) \<and>
     distinct (map col_name (columns t)) \<and>
     getAllRule t \<in> set API_RULE_VALUES \<and> getOneRule t \<in> set API_RULE_VALUES \<and>
     createRule t \<in> set API_RULE_VALUES \<and> updateRule t \<in> set API_RULE_VALUES \<and>
     deleteRule t \<in> set API_RULE_VALUES"
  unfolding validate_def Let_def unique_names_iff rule_values_all [symmetric]
  by (auto simp: list_all_iff list_ex_iff isValidType_def check_rules_Inr)

lemma validate_cases:
  "validate M t = Inr () \<or> validate M t = Inl BadRequestError"
  unfolding validate_def Let_def using check_rules_cases [of t API_RULES] by auto

section \<open>Properties of the update loops\<close>

lemma dropColumns_closed:
  "dropColumns tn oldColumns newColumns =
     map (\<lambda>c. DropColumn tn (col_name c))
       (filter (\<lambda>c. col_id c \<notin> col_id ` set newColumns) oldColumns)"
  by (induction oldColumns) (auto simp: find_None_iff)

lemma addOrRenameColumns_match:
  "addOrRenameColumns tn oldColumns newColumns =
   concat (map (\<lambda>n. case find (\<lambda>c. col_id c = col_id n) oldColumns of
                       None \<Rightarrow> [AddColumn tn n]
                     | Some m \<Rightarrow> if col_name m \<noteq> col_name n
                         then [RenameColumn tn (col_name m) (col_name n)]
                         else []) newColumns)"
  by (induction newColumns) (auto simp: Let_def split: option.splits)

lemma find_distinct_key:
  "distinct (map f xs) \<Longrightarrow> x \<in> set xs \<Longrightarrow> find (\<lambda>y. f y = f x) xs = Some x"
  by (induction xs) (auto simp: rev_image_eqI)

lemma filter_distinct_key:
  "distinct (map f xs) \<Longrightarrow> x \<in> set xs \<Longrightarrow> filter (\<lambda>y. f y = f x) xs = [x]"
  by (induction xs) (auto simp: rev_image_eqI filter_empty_conv)

lemma concat_map_singleton: "concat (map (\<lambda>x. [f x]) xs) = map f xs"
  by (induction xs) auto

text \<open>
  A lookup in a list with distinct keys is a sum over the list, and two nested sums can
  be exchanged: this is what makes the renames of the two directions the same multiset.
\<close>

lemma mset_find_as_filter:
  "distinct (map f xs) \<Longrightarrow>
   mset (case find (\<lambda>x. f x = k) xs of Some m \<Rightarrow> h m | None \<Rightarrow> []) =
   (\<Sum>x\<leftarrow>xs. mset (if f x = k then h x else []))"
proof (induction xs)
  case Nil
  then show ?case by simp
next
  case (Cons x xs)
  show ?case
  proof (cases "f x = k")
    case True
    with Cons.prems have "\<forall>y \<in> set xs. f y \<noteq> k" by (auto simp: image_iff)
    then have "(\<Sum>y\<leftarrow>xs. mset (if f y = k then h y else [])) = {#}"
      by (induction xs) auto
    with True show ?thesis by simp
  next
    case False
    with Cons show ?thesis by simp
  qed
qed

lemma sum_list_swap:
  fixes F :: "'a \<Rightarrow> 'b \<Rightarrow> 'c multiset"
  shows "(\<Sum>x\<leftarrow>xs. \<Sum>y\<leftarrow>ys. F x y) = (\<Sum>y\<leftarrow>ys. \<Sum>x\<leftarrow>xs. F x y)"
  by (induction xs) (simp_all add: sum_list_addf)

lemma mset_match_loop:
  fixes oldColumns newColumns :: "column list"
  assumes "distinct (map col_id oldColumns)"
  shows "mset (concat (map (\<lambda>n. case find (\<lambda>c. col_id c = col_id n) oldColumns of
                                   None \<Rightarrow> a n | Some m \<Rightarrow> r m n) newColumns)) =
         mset (concat (map a (filter (\<lambda>n. col_id n \<notin> col_id ` set oldColumns) newColumns))) +
         (\<Sum>n\<leftarrow>newColumns. \<Sum>c\<leftarrow>oldColumns. mset (if col_id c = col_id n then r c n else []))"
proof (induction newColumns)
  case Nil
  then show ?case by simp
next
  case (Cons n ns)
  have inner: "(\<Sum>c\<leftarrow>oldColumns. mset (if col_id c = col_id n then r c n else [])) =
      mset (case find (\<lambda>c. col_id c = col_id n) oldColumns of Some m \<Rightarrow> r m n | None \<Rightarrow> [])"
    using mset_find_as_filter [OF assms, where k = "col_id n" and h = "\<lambda>c. r c n"] by simp
  show ?case
  proof (cases "find (\<lambda>c. col_id c = col_id n) oldColumns")
    case None
    then have "col_id n \<notin> col_id ` set oldColumns"
      by (auto simp: find_None_iff)
    with None Cons.IH inner show ?thesis by simp
  next
    case (Some m)
    then have "find (\<lambda>c. col_id c = col_id n) oldColumns \<noteq> None" by simp
    then have "col_id n \<in> col_id ` set oldColumns"
      unfolding find_None_iff by (metis imageI)
    with Some Cons.IH inner show ?thesis by simp
  qed
qed

lemma invert_dropColumns:
  assumes "distinct (map col_name (columns oldTable))"
  shows "set cs \<subseteq> set (columns oldTable) \<Longrightarrow>
         map (invert_op oldTable newTable) (dropColumns tn cs newColumns) =
         map (AddColumn (tbl_name newTable))
           (filter (\<lambda>c. col_id c \<notin> col_id ` set newColumns) cs)"
  using find_distinct_key [OF assms]
  by (induction cs) (auto simp: find_None_iff)

lemma invert_addOrRenameColumns:
  "map (invert_op oldTable newTable) (addOrRenameColumns tn oldColumns newColumns) =
   concat (map (\<lambda>n. case find (\<lambda>c. col_id c = col_id n) oldColumns of
                       None \<Rightarrow> [DropColumn (tbl_name newTable) (col_name n)]
                     | Some m \<Rightarrow> if col_name n \<noteq> col_name m
                         then [RenameColumn (tbl_name newTable) (col_name n) (col_name m)]
                         else []) newColumns)"
  by (induction newColumns) (auto simp: Let_def split: option.splits)

lemma diff_columns_symmetric:
  assumes names: "distinct (map col_name (columns oldTable))"
    and old_ids: "distinct (map col_id (columns oldTable))"
    and new_ids: "distinct (map col_id (columns newTable))"
  shows "mset (map (invert_op oldTable newTable) (diff oldTable newTable)) =
         mset (diff newTable oldTable)"
proof -
  let ?O = "columns oldTable" and ?N = "columns newTable"
  let ?tn = "tbl_name newTable"
  let ?R = "\<lambda>c n. if col_name n \<noteq> col_name c
                    then [RenameColumn ?tn (col_name n) (col_name c)] else []"
  have drops: "map (invert_op oldTable newTable) (dropColumns (tbl_name oldTable) ?O ?N) =
      map (AddColumn ?tn) (filter (\<lambda>c. col_id c \<notin> col_id ` set ?N) ?O)"
    using invert_dropColumns [OF names, of ?O] by simp
  have fwd: "mset (map (invert_op oldTable newTable)
                 (addOrRenameColumns (tbl_name oldTable) ?O ?N)) =
      mset (dropColumns ?tn ?N ?O) +
      (\<Sum>n\<leftarrow>?N. \<Sum>c\<leftarrow>?O. mset (if col_id c = col_id n then ?R c n else []))"
    unfolding invert_addOrRenameColumns
    using mset_match_loop [OF old_ids, of "\<lambda>n. [DropColumn ?tn (col_name n)]" ?R ?N]
    by (simp add: dropColumns_closed concat_map_singleton)
  have bwd: "mset (addOrRenameColumns ?tn ?N ?O) =
      mset (map (AddColumn ?tn) (filter (\<lambda>c. col_id c \<notin> col_id ` set ?N) ?O)) +
      (\<Sum>c\<leftarrow>?O. \<Sum>n\<leftarrow>?N. mset (if col_id n = col_id c then ?R c n else []))"
    unfolding addOrRenameColumns_match
    using mset_match_loop [OF new_ids, of "\<lambda>c. [AddColumn ?tn c]" "\<lambda>n c. ?R c n" ?O]
    by (simp add: concat_map_singleton)
  have flip: "\<And>c n :: column. mset (if col_id c = col_id n then ?R c n else []) =
      mset (if col_id n = col_id c then ?R c n else [])"
    by auto
  have swap: "(\<Sum>n\<leftarrow>?N. \<Sum>c\<leftarrow>?O. mset (if col_id c = col_id n then ?R c n else [])) =
      (\<Sum>c\<leftarrow>?O. \<Sum>n\<leftarrow>?N. mset (if col_id n = col_id c then ?R c n else []))"
    by (subst sum_list_swap) (simp only: flip)
  have table: "map (invert_op oldTable newTable) (renameTable oldTable newTable) =
      renameTable newTable oldTable"
    by (auto simp: renameTable_def)
  show ?thesis
    unfolding diff_def map_append mset_append drops fwd bwd swap table
    by (simp add: ac_simps)
qed

lemma run_ops_recording:
  "run_ops (\<lambda>x db. Inr (db @ [x])) xs db = (None, db @ xs)"
  by (induction xs arbitrary: db) auto

section \<open>The operations of one column\<close>

text \<open>
  What the two loops hold for one column id: the adds, the drops and the renames that
  concern the id \<open>i\<close>, first loop by loop, then for the whole diff of two tables whose
  column ids and column names are distinct.
\<close>

lemma adds_of_dropColumns: "filter (is_add_of i) (dropColumns tn oldColumns newColumns) = []"
  by (induction oldColumns) auto

lemma adds_of_addOrRenameColumns:
  "filter (is_add_of i) (addOrRenameColumns tn oldColumns newColumns) =
     map (AddColumn tn)
       (filter (\<lambda>n. col_id n = i \<and> col_id n \<notin> col_id ` set oldColumns) newColumns)"
  by (induction newColumns)
    (force simp: Let_def find_None_iff find_Some_iff image_iff split: option.splits)+

lemma drops_of_addOrRenameColumns:
  "filter (is_drop_of oldTable i) (addOrRenameColumns tn oldColumns newColumns) = []"
  by (induction newColumns) (auto simp: Let_def split: option.splits)

lemma drops_of_dropColumns:
  "filter (is_drop_of oldTable i) (dropColumns tn oldColumns newColumns) =
     (case getColumnById oldTable i of
        None \<Rightarrow> []
      | Some c \<Rightarrow>
          map (\<lambda>c'. DropColumn tn (col_name c'))
            (filter (\<lambda>c'. col_name c' = col_name c \<and> col_id c' \<notin> col_id ` set newColumns)
               oldColumns))"
  by (induction oldColumns) (auto simp: find_None_iff split: option.splits)

lemma renames_of_dropColumns:
  "filter (is_rename_of oldTable newTable i) (dropColumns tn oldColumns newColumns) = []"
  by (induction oldColumns) auto

lemma getColumnById_Some:
  "getColumnById t i = Some c \<Longrightarrow> c \<in> set (columns t) \<and> col_id c = i"
  by (auto simp: getColumnById_def find_Some_iff)

lemma getColumnById_distinct:
  "distinct (map col_id (columns t)) \<Longrightarrow> c \<in> set (columns t) \<Longrightarrow>
     getColumnById t (col_id c) = Some c"
  using find_distinct_key [of col_id "columns t" c] by (simp add: getColumnById_def)

lemma renames_of_addOrRenameColumns:
  assumes old_names: "distinct (map col_name (columns oldTable))"
    and new_names: "distinct (map col_name (columns newTable))"
    and old_ids: "distinct (map col_id (columns oldTable))"
    and new_ids: "distinct (map col_id (columns newTable))"
  shows "set ns \<subseteq> set (columns newTable) \<Longrightarrow>
    filter (is_rename_of oldTable newTable i) (addOrRenameColumns tn (columns oldTable) ns) =
      concat (map (\<lambda>n. case find (\<lambda>c. col_id c = col_id n) (columns oldTable) of
                     None \<Rightarrow> []
                   | Some m \<Rightarrow> if col_name m \<noteq> col_name n
                       then [RenameColumn tn (col_name m) (col_name n)] else [])
        (filter (\<lambda>n. col_id n = i) ns))"
proof (induction ns)
  case Nil
  then show ?case by simp
next
  case (Cons n ns)
  then have n_in: "n \<in> set (columns newTable)" by simp
  have here: "filter (is_rename_of oldTable newTable i)
        (case find (\<lambda>c. col_id c = col_id n) (columns oldTable) of
           None \<Rightarrow> []
         | Some m \<Rightarrow> if col_name m \<noteq> col_name n
                  then [RenameColumn tn (col_name m) (col_name n)] else []) =
      (if col_id n = i
       then (case find (\<lambda>c. col_id c = col_id n) (columns oldTable) of
               None \<Rightarrow> []
             | Some m \<Rightarrow> if col_name m \<noteq> col_name n
                      then [RenameColumn tn (col_name m) (col_name n)] else [])
       else [])"
  proof (cases "find (\<lambda>c. col_id c = col_id n) (columns oldTable)")
    case None
    then show ?thesis by auto
  next
    case (Some m)
    then have m: "m \<in> set (columns oldTable)" "col_id m = col_id n"
      by (auto simp: find_Some_iff)
    have m_found: "getColumnById oldTable (col_id n) = Some m"
      using getColumnById_distinct [OF old_ids m(1)] m(2) by simp
    have n_found: "getColumnById newTable (col_id n) = Some n"
      using getColumnById_distinct [OF new_ids n_in] by simp
    show ?thesis
    proof (cases "col_id n = i")
      case True
      with Some m_found n_found show ?thesis by auto
    next
      case False
      have "\<not> is_rename_of oldTable newTable i (RenameColumn tn (col_name m) (col_name n))"
      proof
        assume "is_rename_of oldTable newTable i (RenameColumn tn (col_name m) (col_name n))"
        then consider c where "getColumnById oldTable i = Some c" "col_name m = col_name c"
          | c where "getColumnById newTable i = Some c" "col_name n = col_name c"
          by (auto split: option.splits)
        then show False
        proof cases
          case 1
          from getColumnById_Some [OF 1(1)] have "c \<in> set (columns oldTable)" "col_id c = i"
            by auto
          with old_names m(1) 1(2) have "m = c"
            by (metis distinct_map inj_onD)
          with \<open>col_id c = i\<close> m(2) False show False by simp
        next
          case 2
          from getColumnById_Some [OF 2(1)] have "c \<in> set (columns newTable)" "col_id c = i"
            by auto
          with new_names n_in 2(2) have "n = c"
            by (metis distinct_map inj_onD)
          with \<open>col_id c = i\<close> False show False by simp
        qed
      qed
      with Some False show ?thesis by simp
    qed
  qed
  from Cons have IH: "filter (is_rename_of oldTable newTable i)
      (addOrRenameColumns tn (columns oldTable) ns) =
      concat (map (\<lambda>n. case find (\<lambda>c. col_id c = col_id n) (columns oldTable) of
                     None \<Rightarrow> []
                   | Some m \<Rightarrow> if col_name m \<noteq> col_name n
                       then [RenameColumn tn (col_name m) (col_name n)] else [])
        (filter (\<lambda>n. col_id n = i) ns))"
    by simp
  have add_no: "filter (is_rename_of oldTable newTable i)
      (if find (\<lambda>c. col_id c = col_id n) (columns oldTable) = None then [AddColumn tn n] else []) = []"
    by simp
  show ?case
    by (simp only: addOrRenameColumns.simps Let_def filter_append add_no here IH)
       simp
qed

lemma getColumnById_None: "getColumnById t i = None \<longleftrightarrow> i \<notin> col_id ` set (columns t)"
  by (auto simp: getColumnById_def find_None_iff)

lemma filter_id_found:
  assumes "distinct (map col_id (columns t))" and "getColumnById t i = Some c"
  shows "filter (\<lambda>n. col_id n = i) (columns t) = [c]"
  using filter_distinct_key [OF assms(1), of c] getColumnById_Some [OF assms(2)] by simp

lemma filter_id_missing:
  "getColumnById t i = None \<Longrightarrow> filter (\<lambda>n. col_id n = i) (columns t) = []"
  by (auto simp: getColumnById_None filter_empty_conv)

lemma filter_name_found:
  assumes "distinct (map col_name (columns t))" and "getColumnById t i = Some c"
  shows "filter (\<lambda>c'. col_name c' = col_name c \<and> Q c') (columns t) = filter Q [c]"
proof -
  have "filter (\<lambda>c'. col_name c' = col_name c \<and> Q c') (columns t) =
      filter Q (filter (\<lambda>c'. col_name c' = col_name c) (columns t))"
    by (simp add: conj_commute)
  also have "\<dots> = filter Q [c]"
    using filter_distinct_key [OF assms(1), of c] getColumnById_Some [OF assms(2)] by simp
  finally show ?thesis .
qed

lemma operations_of_column:
  assumes old_names: "distinct (map col_name (columns oldTable))"
    and new_names: "distinct (map col_name (columns newTable))"
    and old_ids: "distinct (map col_id (columns oldTable))"
    and new_ids: "distinct (map col_id (columns newTable))"
  shows "filter (is_add_of i) (diff oldTable newTable) =
      (case getColumnById newTable i of
         None \<Rightarrow> []
       | Some n \<Rightarrow> if getColumnById oldTable i = None
                   then [AddColumn (tbl_name oldTable) n] else [])"
    and "filter (is_drop_of oldTable i) (diff oldTable newTable) =
      (case getColumnById oldTable i of
         None \<Rightarrow> []
       | Some c \<Rightarrow> if getColumnById newTable i = None
                   then [DropColumn (tbl_name oldTable) (col_name c)] else [])"
    and "filter (is_rename_of oldTable newTable i) (diff oldTable newTable) =
      (case getColumnById newTable i of
         None \<Rightarrow> []
       | Some n \<Rightarrow>
           (case getColumnById oldTable i of
              None \<Rightarrow> []
            | Some c \<Rightarrow> if col_name c \<noteq> col_name n
                then [RenameColumn (tbl_name oldTable) (col_name c) (col_name n)] else []))"
proof -
  let ?tn = "tbl_name oldTable"
  have table: "filter P (renameTable oldTable newTable) = []"
    if "\<And>a b. \<not> P (RenameTable a b)" for P
    using that by (simp add: renameTable_def)
  show "filter (is_add_of i) (diff oldTable newTable) =
      (case getColumnById newTable i of
         None \<Rightarrow> []
       | Some n \<Rightarrow> if getColumnById oldTable i = None
                   then [AddColumn ?tn n] else [])"
  proof (cases "getColumnById newTable i")
    case None
    from filter_id_missing [OF None] have "filter (\<lambda>n. col_id n = i \<and>
        col_id n \<notin> col_id ` set (columns oldTable)) (columns newTable) = []"
      by (auto simp: filter_empty_conv)
    with None show ?thesis
      by (simp add: diff_def adds_of_dropColumns adds_of_addOrRenameColumns table)
  next
    case (Some n)
    have "filter (\<lambda>n. col_id n = i \<and> col_id n \<notin> col_id ` set (columns oldTable))
        (columns newTable) =
        filter (\<lambda>n. col_id n \<notin> col_id ` set (columns oldTable))
          (filter (\<lambda>n. col_id n = i) (columns newTable))"
      by (simp add: conj_commute)
    with filter_id_found [OF new_ids Some] getColumnById_Some [OF Some] Some show ?thesis
      by (simp add: diff_def adds_of_dropColumns adds_of_addOrRenameColumns table
          getColumnById_None)
  qed
  show "filter (is_drop_of oldTable i) (diff oldTable newTable) =
      (case getColumnById oldTable i of
         None \<Rightarrow> []
       | Some c \<Rightarrow> if getColumnById newTable i = None
                   then [DropColumn ?tn (col_name c)] else [])"
  proof (cases "getColumnById oldTable i")
    case None
    then show ?thesis
      by (simp add: diff_def drops_of_dropColumns drops_of_addOrRenameColumns table)
  next
    case (Some c)
    with filter_name_found [OF old_names Some] getColumnById_Some [OF Some] show ?thesis
      by (simp add: diff_def drops_of_dropColumns drops_of_addOrRenameColumns table
          getColumnById_None)
  qed
  show "filter (is_rename_of oldTable newTable i) (diff oldTable newTable) =
      (case getColumnById newTable i of
         None \<Rightarrow> []
       | Some n \<Rightarrow>
           (case getColumnById oldTable i of
              None \<Rightarrow> []
            | Some c \<Rightarrow> if col_name c \<noteq> col_name n
                then [RenameColumn ?tn (col_name c) (col_name n)] else []))"
  proof -
    have loops: "filter (is_rename_of oldTable newTable i) (diff oldTable newTable) =
        concat (map (\<lambda>n. case find (\<lambda>c. col_id c = col_id n) (columns oldTable) of
                            None \<Rightarrow> []
                          | Some m \<Rightarrow> if col_name m \<noteq> col_name n
                              then [RenameColumn ?tn (col_name m) (col_name n)] else [])
          (filter (\<lambda>n. col_id n = i) (columns newTable)))"
      using renames_of_addOrRenameColumns [OF assms, of "columns newTable" i ?tn]
      by (simp add: diff_def renames_of_dropColumns table)
    show ?thesis
    proof (cases "getColumnById newTable i")
      case None
      with filter_id_missing [OF None] loops show ?thesis by simp
    next
      case (Some n)
      from getColumnById_Some [OF Some] have "col_id n = i" by simp
      with filter_id_found [OF new_ids Some] loops Some show ?thesis
        by (simp add: getColumnById_def)
    qed
  qed
qed

section \<open>Properties of the rehydration loop\<close>

lemma parse_key_keeps:
  "parse_key M P t kv = Inr kv' \<Longrightarrow>
     fst kv' = fst kv \<and>
     (fst kv \<in> {''id'', ''created_at'', ''updated_at''} \<longrightarrow> kv' = kv)"
  by (auto simp: parse_key_def Let_def split: if_splits option.splits)

lemma parse_row_keeps:
  "map fst (snd (parse_row M P t row)) = map fst row \<and>
   filter (\<lambda>kv. fst kv \<in> {''id'', ''created_at'', ''updated_at''}) (snd (parse_row M P t row)) =
     filter (\<lambda>kv. fst kv \<in> {''id'', ''created_at'', ''updated_at''}) row"
proof (induction row)
  case Nil
  then show ?case by simp
next
  case (Cons kv rest)
  show ?case
  proof (cases "parse_key M P t kv")
    case (Inl e)
    then show ?thesis by simp
  next
    case (Inr kv')
    from parse_key_keeps [OF Inr] Cons.IH Inr show ?thesis
      by (auto split: prod.splits)
  qed
qed

lemma parseJsonColumns_keeps:
  "map (map fst) (snd (parseJsonColumns M P t rows)) = map (map fst) rows \<and>
   map (filter (\<lambda>kv. fst kv \<in> {''id'', ''created_at'', ''updated_at''}))
       (snd (parseJsonColumns M P t rows)) =
     map (filter (\<lambda>kv. fst kv \<in> {''id'', ''created_at'', ''updated_at''})) rows"
proof (induction rows)
  case Nil
  then show ?case by simp
next
  case (Cons row rows)
  from parse_row_keeps [of M P t row] Cons.IH show ?case
    by (auto split: prod.splits option.splits)
qed

lemma map_of_reserved:
  "k \<in> R \<Longrightarrow> map_of (filter (\<lambda>kv. fst kv \<in> R) row) k = map_of row k"
  by (induction row) auto

lemma map_of_reserved_rows:
  "k \<in> R \<Longrightarrow>
   map (\<lambda>row. map_of row k) (map (filter (\<lambda>kv. fst kv \<in> R)) rows) =
     map (\<lambda>row. map_of row k) rows"
  by (simp add: map_of_reserved comp_def)

text \<open>
  The decode-or-pass-through rule for one key: where the registry has the column's type
  and marks it as JSON, the value is replaced by what \<^verbatim>\<open>JSON.parse\<close> gives and stays as
  it is when \<^verbatim>\<open>JSON.parse\<close> throws.
\<close>

lemma parse_key_json:
  assumes "k \<notin> {''id'', ''created_at'', ''updated_at''}"
    and "getColumnByName t k = Some c"
    and "M (col_type c) = Some meta"
    and "isJson meta"
  shows "parse_key M P t (k, v) = Inr (k, case P v of Some d \<Rightarrow> d | None \<Rightarrow> v)"
  using assms by (simp add: parse_key_def split: option.splits)

text \<open>
  When every key of every row that is not reserved names a column whose type the
  registry has, the loop ends without an exception and every entry is what the body of
  the loop makes of it.
\<close>

lemma parse_key_known:
  assumes "fst kv \<notin> {''id'', ''created_at'', ''updated_at''} \<longrightarrow>
      (\<exists>c. getColumnByName t (fst kv) = Some c \<and> M (col_type c) \<noteq> None)"
  shows "\<exists>kv'. parse_key M P t kv = Inr kv'"
  using assms by (auto simp: parse_key_def Let_def split: option.splits)

lemma parse_row_known:
  assumes "\<forall>kv \<in> set row. fst kv \<notin> {''id'', ''created_at'', ''updated_at''} \<longrightarrow>
      (\<exists>c. getColumnByName t (fst kv) = Some c \<and> M (col_type c) \<noteq> None)"
  shows "fst (parse_row M P t row) = None \<and>
         list_all2 (\<lambda>kv kv'. parse_key M P t kv = Inr kv') row (snd (parse_row M P t row))"
  using assms
proof (induction row)
  case Nil
  then show ?case by simp
next
  case (Cons kv rest)
  then obtain kv' where "parse_key M P t kv = Inr kv'"
    using parse_key_known [of kv t M P] by auto
  with Cons show ?case by (auto split: prod.splits)
qed

lemma parseJsonColumns_known:
  assumes "\<forall>row \<in> set rows. \<forall>kv \<in> set row.
      fst kv \<notin> {''id'', ''created_at'', ''updated_at''} \<longrightarrow>
      (\<exists>c. getColumnByName t (fst kv) = Some c \<and> M (col_type c) \<noteq> None)"
  shows "fst (parseJsonColumns M P t rows) = None \<and>
         list_all2 (list_all2 (\<lambda>kv kv'. parse_key M P t kv = Inr kv')) rows
           (snd (parseJsonColumns M P t rows))"
  using assms
proof (induction rows)
  case Nil
  then show ?case by simp
next
  case (Cons row rows)
  from Cons.prems have "\<forall>kv \<in> set row. fst kv \<notin> {''id'', ''created_at'', ''updated_at''} \<longrightarrow>
      (\<exists>c. getColumnByName t (fst kv) = Some c \<and> M (col_type c) \<noteq> None)"
    by simp
  from parse_row_known [OF this, of P] Cons show ?case
    by (auto split: prod.splits option.splits)
qed

section \<open>Connections\<close>

text \<open>
  Each of the three methods ends with the number of open connections it started with
  when the migration ran through, and with one more when it did not.
\<close>

lemma migrate_up_connections: "connections (snd (migrate_up dao w)) = connections w"
  by (simp add: migrate_up_def
      split: list.splits prod.splits option.splits migration_file.splits)

lemma written_connections:
  "connections (snd (migrate_up dao (write_migration name f (getNewConnection w)))) =
     Suc (connections w)"
  by (simp add: migrate_up_connections write_migration_def getNewConnection_def)

lemma updateTo_connections:
  assumes "tbl_id this = tbl_id newTable"
  shows "connections (snd (updateTo dao this newTable w)) =
       (if fst (updateTo dao this newTable w) = Inr () then connections w
        else Suc (connections w))"
proof -
  define f where "f = Module \<lparr>mig_up = update_up this newTable,
      mig_down = update_down this newTable\<rparr>"
  let ?written = "write_migration (''update_table_'' @ tbl_name this) f (getNewConnection w)"
  obtain r w' where run: "migrate_up dao ?written = (r, w')"
    by (cases "migrate_up dao ?written")
  from written_connections [of dao "''update_table_'' @ tbl_name this" f w] run
  have "connections w' = Suc (connections w)" by simp
  with run assms show ?thesis
    by (cases r) (simp_all add: updateTo_def validateUpdateTo_def Let_def destroy_def f_def)
qed

lemma create_connections:
  assumes "findTableByName (store w) (tbl_name this) = []"
  shows "connections (snd (create findTableByName quoted dao this w)) =
       (if fst (create findTableByName quoted dao this w) = Inr () then connections w
        else Suc (connections w))"
proof -
  define f where "f = (case quoted_calls quoted this of
      None \<Rightarrow> Unloadable
    | Some calls \<Rightarrow>
        Module \<lparr>mig_up = [CreateTable this, AddTableMetaData this], mig_down = calls\<rparr>)"
  let ?written = "write_migration (''create_table_'' @ tbl_name this) f (getNewConnection w)"
  obtain r w' where run: "migrate_up dao ?written = (r, w')"
    by (cases "migrate_up dao ?written")
  from written_connections [of dao "''create_table_'' @ tbl_name this" f w] run
  have "connections w' = Suc (connections w)" by simp
  with run assms show ?thesis
    by (cases r) (simp_all add: create_def Let_def destroy_def f_def)
qed

lemma drop_table_connections:
  "connections (snd (drop_table quoted dao this w)) =
     (if fst (drop_table quoted dao this w) = Inr () then connections w
      else Suc (connections w))"
proof -
  define f where "f = (case quoted_calls quoted this of
      None \<Rightarrow> Unloadable
    | Some calls \<Rightarrow>
        Module \<lparr>mig_up = calls, mig_down = [CreateTable this, AddTableMetaData this]\<rparr>)"
  let ?written = "write_migration (''drop_table_'' @ tbl_name this) f (getNewConnection w)"
  obtain r w' where run: "migrate_up dao ?written = (r, w')"
    by (cases "migrate_up dao ?written")
  from written_connections [of dao "''drop_table_'' @ tbl_name this" f w] run
  have "connections w' = Suc (connections w)" by simp
  with run show ?thesis
    by (cases r) (simp_all add: drop_table_def Let_def destroy_def f_def)
qed

text \<open>
  With no older file pending, \<^verbatim>\<open>db.migrate.up()\<close> runs the file just written.
\<close>

lemma migrate_up_written:
  assumes "completed w = length (migration_files w)"
  shows "migrate_up dao (write_migration name (Module m) (getNewConnection w)) =
     (case run_ops dao (mig_up m) (store w) of
        (None, db') \<Rightarrow>
          (None, w\<lparr>store := db', connections := Suc (connections w),
                   migration_files := migration_files w @ [(name, Module m)],
                   completed := Suc (completed w)\<rparr>)
      | (Some e, db') \<Rightarrow>
          (Some e, w\<lparr>store := db', connections := Suc (connections w),
                     migration_files := migration_files w @ [(name, Module m)]\<rparr>))"
  using assms
  by (simp add: migrate_up_def write_migration_def getNewConnection_def
      split: prod.splits option.splits)

section \<open>The claims\<close>

text \<open>
  C1, as amended. For two valid revisions of a table with the same table id in each of
  which the column ids are pairwise distinct, the operations of the backward direction
  (the same loops run with the two tables exchanged) are, as a multiset, the inverses of
  the operations of the forward direction: \<open>diff new old\<close> is \<open>invert (diff old new)\<close>,
  and the same holds with the catalog writes that end \<^verbatim>\<open>up\<close> and \<^verbatim>\<open>down\<close>.
\<close>

theorem diff_inverse_when_column_ids_distinct:
  assumes "validate M oldTable = Inr ()"
    and "validate M newTable = Inr ()"
    and "tbl_id oldTable = tbl_id newTable"
    and "distinct (map col_id (columns oldTable))"
    and "distinct (map col_id (columns newTable))"
  shows "mset (diff newTable oldTable) =
           image_mset (invert_op oldTable newTable) (mset (diff oldTable newTable)) \<and>
         mset (update_down oldTable newTable) =
           image_mset (invert_op oldTable newTable) (mset (update_up oldTable newTable))"
proof -
  from assms(1) have "distinct (map col_name (columns oldTable))"
    by (simp add: validate_Inr_iff)
  from diff_columns_symmetric [OF this assms(4) assms(5)]
  show ?thesis
    by (simp add: update_up_def update_down_def)
qed

theorem diff_inverse_when_column_ids_distinct_witness:
  "validate example_COLUMN_MAP seals_v1 = Inr () \<and>
   validate example_COLUMN_MAP seals_v2 = Inr () \<and>
   tbl_id seals_v1 = tbl_id seals_v2 \<and>
   distinct (map col_id (columns seals_v1)) \<and>
   distinct (map col_id (columns seals_v2)) \<and>
   diff seals_v1 seals_v2 = [RenameColumn ''seals'' ''age'' ''years'', AddColumn ''seals'' weight] \<and>
   mset (diff seals_v2 seals_v1) =
     {#RenameColumn ''seals'' ''years'' ''age'', DropColumn ''seals'' ''weight''#} \<and>
   mset (diff seals_v2 seals_v1) =
     image_mset (invert_op seals_v1 seals_v2) (mset (diff seals_v1 seals_v2))"
proof -
  have v1: "validate example_COLUMN_MAP seals_v1 = Inr ()"
    by (simp add: validate_Inr_iff example_defs)
  have v2: "validate example_COLUMN_MAP seals_v2 = Inr ()"
    by (simp add: validate_Inr_iff example_defs)
  have ids: "tbl_id seals_v1 = tbl_id seals_v2"
    by (simp add: example_defs)
  have d1: "distinct (map col_id (columns seals_v1))"
    by (simp add: example_defs)
  have d2: "distinct (map col_id (columns seals_v2))"
    by (simp add: example_defs)
  have fwd: "diff seals_v1 seals_v2 =
      [RenameColumn ''seals'' ''age'' ''years'', AddColumn ''seals'' weight]"
    by (simp add: diff_def renameTable_def example_defs)
  have bwd: "diff seals_v2 seals_v1 =
      [DropColumn ''seals'' ''weight'', RenameColumn ''seals'' ''years'' ''age'']"
    by (simp add: diff_def renameTable_def example_defs)
  from diff_inverse_when_column_ids_distinct [OF v1 v2 ids d1 d2] v1 v2 ids d1 d2 fwd bwd
  show ?thesis by (simp add: example_defs)
qed

text \<open>
  C1 as the spec states it, for every pair of valid revisions, fails: \<^verbatim>\<open>validate\<close> does
  not ask for distinct column ids. With the old table holding the id \<^verbatim>\<open>C1\<close> twice
  (\<^verbatim>\<open>age\<close>, \<^verbatim>\<open>years\<close>) and the new one holding it once (\<^verbatim>\<open>age\<close>), the forward
  direction has no operation, and the backward direction renames \<^verbatim>\<open>age\<close> to
  \<^verbatim>\<open>years\<close>.
\<close>

theorem diff_inverse_counterexample:
  "validate example_COLUMN_MAP seals_dup = Inr () \<and>
   validate example_COLUMN_MAP seals_v1 = Inr () \<and>
   tbl_id seals_dup = tbl_id seals_v1 \<and>
   diff seals_dup seals_v1 = [] \<and>
   diff seals_v1 seals_dup = [RenameColumn ''seals'' ''age'' ''years''] \<and>
   mset (diff seals_v1 seals_dup) \<noteq>
     image_mset (invert_op seals_dup seals_v1) (mset (diff seals_dup seals_v1))"
proof -
  have v1: "validate example_COLUMN_MAP seals_dup = Inr ()"
    by (simp add: validate_Inr_iff example_defs)
  have v2: "validate example_COLUMN_MAP seals_v1 = Inr ()"
    by (simp add: validate_Inr_iff example_defs)
  have fwd: "diff seals_dup seals_v1 = []"
    by (simp add: diff_def renameTable_def example_defs)
  have bwd: "diff seals_v1 seals_dup = [RenameColumn ''seals'' ''age'' ''years'']"
    by (simp add: diff_def renameTable_def example_defs)
  show ?thesis
    unfolding fwd bwd using v1 v2 by (simp add: example_defs)
qed

text \<open>
  C3. The calls of \<^verbatim>\<open>up\<close>, in order: a drop for every old column whose id no new column
  has, in the order of the old columns; then, in the order of the new columns, an add for
  every new column whose id no old column has and a rename for every new column whose
  match (the first old column with its id) has another name; then the rename of the
  table if and only if the name changed; and last, in every case, the catalog write with
  the new table. When no older migration is pending, \<^verbatim>\<open>updateTo\<close> runs this \<^verbatim>\<open>up\<close>,
  and a data access object that records its calls receives exactly this list.
\<close>

theorem update_up_order:
  "update_up oldTable newTable =
     map (\<lambda>c. DropColumn (tbl_name oldTable) (col_name c))
       (filter (\<lambda>c. col_id c \<notin> col_id ` set (columns newTable)) (columns oldTable)) @
     concat (map (\<lambda>n. case getColumnById oldTable (col_id n) of
                         None \<Rightarrow> [AddColumn (tbl_name oldTable) n]
                       | Some m \<Rightarrow>
                           if col_name m \<noteq> col_name n
                           then [RenameColumn (tbl_name oldTable) (col_name m) (col_name n)]
                           else []) (columns newTable)) @
     (if tbl_name oldTable \<noteq> tbl_name newTable
      then [RenameTable (tbl_name oldTable) (tbl_name newTable)] else []) @
     [UpdateTableMetaData newTable] \<and>
   (tbl_id oldTable = tbl_id newTable \<and> completed w = length (migration_files w) \<longrightarrow>
      store (snd (updateTo (\<lambda>x db. Inr (db @ [x])) oldTable newTable w)) =
        store w @ update_up oldTable newTable)"
proof -
  have order: "update_up oldTable newTable =
     map (\<lambda>c. DropColumn (tbl_name oldTable) (col_name c))
       (filter (\<lambda>c. col_id c \<notin> col_id ` set (columns newTable)) (columns oldTable)) @
     concat (map (\<lambda>n. case getColumnById oldTable (col_id n) of
                         None \<Rightarrow> [AddColumn (tbl_name oldTable) n]
                       | Some m \<Rightarrow>
                           if col_name m \<noteq> col_name n
                           then [RenameColumn (tbl_name oldTable) (col_name m) (col_name n)]
                           else []) (columns newTable)) @
     (if tbl_name oldTable \<noteq> tbl_name newTable
      then [RenameTable (tbl_name oldTable) (tbl_name newTable)] else []) @
     [UpdateTableMetaData newTable]"
    by (simp add: update_up_def diff_def dropColumns_closed addOrRenameColumns_match
        renameTable_def getColumnById_def)
  have run: "store (snd (updateTo (\<lambda>x db. Inr (db @ [x])) oldTable newTable w)) =
        store w @ update_up oldTable newTable"
    if "tbl_id oldTable = tbl_id newTable" and "completed w = length (migration_files w)"
    using that
    by (simp add: updateTo_def validateUpdateTo_def migrate_up_written run_ops_recording
        destroy_def)
  from order run show ?thesis by blast
qed

theorem update_up_order_witness:
  "update_up seals_v1 seals_v2 =
     [RenameColumn ''seals'' ''age'' ''years'', AddColumn ''seals'' weight,
      UpdateTableMetaData seals_v2] \<and>
   update_up seals_v2 seals_v3 =
     [DropColumn ''seals'' ''years'', RenameTable ''seals'' ''pinnipeds'',
      UpdateTableMetaData seals_v3] \<and>
   update_up seals_v1 seals_v1 = [UpdateTableMetaData seals_v1] \<and>
   tbl_id seals_v2 = tbl_id seals_v3 \<and>
   completed empty_world = length (migration_files empty_world) \<and>
   store (snd (updateTo (\<lambda>x db. Inr (db @ [x])) seals_v2 seals_v3 empty_world)) =
     [DropColumn ''seals'' ''years'', RenameTable ''seals'' ''pinnipeds'',
      UpdateTableMetaData seals_v3]"
proof -
  note order = update_up_order [THEN conjunct1]
  have a: "update_up seals_v1 seals_v2 =
     [RenameColumn ''seals'' ''age'' ''years'', AddColumn ''seals'' weight,
      UpdateTableMetaData seals_v2]"
    using order [of seals_v1 seals_v2] by (simp add: getColumnById_def example_defs)
  have b: "update_up seals_v2 seals_v3 =
     [DropColumn ''seals'' ''years'', RenameTable ''seals'' ''pinnipeds'',
      UpdateTableMetaData seals_v3]"
    using order [of seals_v2 seals_v3] by (simp add: getColumnById_def example_defs)
  have c: "update_up seals_v1 seals_v1 = [UpdateTableMetaData seals_v1]"
    using order [of seals_v1 seals_v1] by (simp add: getColumnById_def example_defs)
  have ids: "tbl_id seals_v2 = tbl_id seals_v3"
    by (simp add: example_defs)
  have none_pending: "completed empty_world = length (migration_files empty_world)"
    by (simp add: empty_world_def)
  have "store (snd (updateTo (\<lambda>x db. Inr (db @ [x])) seals_v2 seals_v3 empty_world)) =
      store empty_world @ update_up seals_v2 seals_v3"
    using update_up_order [THEN conjunct2, of seals_v2 seals_v3 empty_world] ids none_pending
    by blast
  with a b c ids none_pending show ?thesis
    by (simp add: empty_world_def)
qed

text \<open>
  C2. \<^verbatim>\<open>validate\<close> succeeds if and only if the id and the name of the table are not
  empty, there is a column, every column has a non-empty id, name and type, every column
  type is in the registry, no column is named \<^verbatim>\<open>id\<close>, \<^verbatim>\<open>created_at\<close> or
  \<^verbatim>\<open>updated_at\<close>, the column names are pairwise distinct, and each of the five rules has
  an allowed value; otherwise it fails with the \<^verbatim>\<open>BadRequestError\<close> the source throws
  at each of its checks. The constructor runs the same check on the object it has
  assembled: a constructed table is one that passes, and an assembled object that does
  not pass makes the construction fail with that error.
\<close>

theorem validate_iff_invariants:
  "(validate M t = Inr () \<longleftrightarrow>
      tbl_id t \<noteq> [] \<and> tbl_name t \<noteq> [] \<and> columns t \<noteq> [] \<and>
      (\<forall>c \<in> set (columns t). col_id c \<noteq> [] \<and> col_name c \<noteq> [] \<and> col_type c \<noteq> []) \<and>
      (\<forall>c \<in> set (columns t). M (col_type c) \<noteq> None) \<and>
      (\<forall>c \<in> set (columns t). col_name c \<notin> {''id'', ''created_at'', ''updated_at''}) \<and>
      distinct (map col_name (columns t)) \<and>
      getAllRule t \<in> set API_RULE_VALUES \<and> getOneRule t \<in> set API_RULE_VALUES \<and>
      createRule t \<in> set API_RULE_VALUES \<and> updateRule t \<in> set API_RULE_VALUES \<and>
      deleteRule t \<in> set API_RULE_VALUES) \<and>
   (validate M t \<noteq> Inr () \<longrightarrow> validate M t = Inl BadRequestError) \<and>
   (Table M JSON_parse uuid a = Inr t \<longleftrightarrow>
      assign_fields JSON_parse uuid a = Inr t \<and> validate M t = Inr ()) \<and>
   (assign_fields JSON_parse uuid a = Inr t \<and> validate M t \<noteq> Inr () \<longrightarrow>
      Table M JSON_parse uuid a = Inl BadRequestError)"
proof -
  have construct: "Table M JSON_parse uuid a = Inr t \<longleftrightarrow>
      assign_fields JSON_parse uuid a = Inr t \<and> validate M t = Inr ()"
    by (auto simp: Table_def split: sum.splits)
  have reject: "assign_fields JSON_parse uuid a = Inr t \<and> validate M t \<noteq> Inr () \<longrightarrow>
      Table M JSON_parse uuid a = Inl BadRequestError"
    using validate_cases [of M t] by (auto simp: Table_def split: sum.splits)
  from validate_Inr_iff [of M t] validate_cases [of M t] construct reject
  show ?thesis by blast
qed

theorem validate_iff_invariants_witness:
  "validate example_COLUMN_MAP seals_v2 = Inr () \<and>
   validate example_COLUMN_MAP (seals ''seals'' []) = Inl BadRequestError \<and>
   validate example_COLUMN_MAP (seals ''seals'' [age, age]) = Inl BadRequestError \<and>
   validate example_COLUMN_MAP (seals ''seals'' [age\<lparr>col_name := ''created_at''\<rparr>]) =
     Inl BadRequestError \<and>
   validate example_COLUMN_MAP (seals ''seals'' [age\<lparr>col_type := ''blob''\<rparr>]) =
     Inl BadRequestError \<and>
   validate example_COLUMN_MAP (seals ''seals'' [age\<lparr>col_id := []\<rparr>]) = Inl BadRequestError \<and>
   validate example_COLUMN_MAP (seals_v1\<lparr>deleteRule := ''owner''\<rparr>) = Inl BadRequestError \<and>
   Table example_COLUMN_MAP (\<lambda>s. NoJson) (\<lambda>k. ''uuid'')
     \<lparr>targ_id = Some ''T1'', targ_name = Some ''seals'',
      targ_columns = Some (ColumnsArray
        [\<lparr>arg_id = Some ''C1'', arg_name = ''age'', arg_type = ''int'',
          arg_options = Some True\<rparr>]),
      targ_getAllRule = None, targ_getOneRule = None, targ_createRule = Some ''user'',
      targ_updateRule = Some ''creator'', targ_deleteRule = Some ''admin''\<rparr> = Inr seals_v1"
proof -
  let ?args = "\<lparr>targ_id = Some ''T1'', targ_name = Some ''seals'',
      targ_columns = Some (ColumnsArray
        [\<lparr>arg_id = Some ''C1'', arg_name = ''age'', arg_type = ''int'',
          arg_options = Some True\<rparr>]),
      targ_getAllRule = None, targ_getOneRule = None, targ_createRule = Some ''user'',
      targ_updateRule = Some ''creator'', targ_deleteRule = Some ''admin''\<rparr>"
  have assembled: "assign_fields (\<lambda>s. NoJson) (\<lambda>k. ''uuid'') ?args = Inr seals_v1"
    by (simp add: assign_fields_def Column_def DEFAULT_RULE_def example_defs)
  note inv = validate_iff_invariants [THEN conjunct1]
  note err = validate_iff_invariants [THEN conjunct2, THEN conjunct1]
  note con = validate_iff_invariants [THEN conjunct2, THEN conjunct2, THEN conjunct1]
  have ok2: "validate example_COLUMN_MAP seals_v2 = Inr ()"
    using inv [of example_COLUMN_MAP seals_v2] by (simp add: example_defs)
  have ok1: "validate example_COLUMN_MAP seals_v1 = Inr ()"
    using inv [of example_COLUMN_MAP seals_v1] by (simp add: example_defs)
  have no_columns: "validate example_COLUMN_MAP (seals ''seals'' []) = Inl BadRequestError"
    using inv [of example_COLUMN_MAP "seals ''seals'' []"]
      err [of example_COLUMN_MAP "seals ''seals'' []"]
    by (simp add: example_defs)
  have same_name: "validate example_COLUMN_MAP (seals ''seals'' [age, age]) = Inl BadRequestError"
    using inv [of example_COLUMN_MAP "seals ''seals'' [age, age]"]
      err [of example_COLUMN_MAP "seals ''seals'' [age, age]"]
    by (simp add: example_defs)
  have reserved: "validate example_COLUMN_MAP
      (seals ''seals'' [age\<lparr>col_name := ''created_at''\<rparr>]) = Inl BadRequestError"
    using inv [of example_COLUMN_MAP "seals ''seals'' [age\<lparr>col_name := ''created_at''\<rparr>]"]
      err [of example_COLUMN_MAP "seals ''seals'' [age\<lparr>col_name := ''created_at''\<rparr>]"]
    by (simp add: example_defs)
  have unknown_type: "validate example_COLUMN_MAP
      (seals ''seals'' [age\<lparr>col_type := ''blob''\<rparr>]) = Inl BadRequestError"
    using inv [of example_COLUMN_MAP "seals ''seals'' [age\<lparr>col_type := ''blob''\<rparr>]"]
      err [of example_COLUMN_MAP "seals ''seals'' [age\<lparr>col_type := ''blob''\<rparr>]"]
    by (simp add: example_defs)
  have no_id: "validate example_COLUMN_MAP
      (seals ''seals'' [age\<lparr>col_id := []\<rparr>]) = Inl BadRequestError"
    using inv [of example_COLUMN_MAP "seals ''seals'' [age\<lparr>col_id := []\<rparr>]"]
      err [of example_COLUMN_MAP "seals ''seals'' [age\<lparr>col_id := []\<rparr>]"]
    by (simp add: example_defs)
  have bad_rule: "validate example_COLUMN_MAP
      (seals_v1\<lparr>deleteRule := ''owner''\<rparr>) = Inl BadRequestError"
    using inv [of example_COLUMN_MAP "seals_v1\<lparr>deleteRule := ''owner''\<rparr>"]
      err [of example_COLUMN_MAP "seals_v1\<lparr>deleteRule := ''owner''\<rparr>"]
    by (simp add: example_defs)
  have constructed: "Table example_COLUMN_MAP (\<lambda>s. NoJson) (\<lambda>k. ''uuid'') ?args = Inr seals_v1"
    using con [of example_COLUMN_MAP "\<lambda>s. NoJson" "\<lambda>k. ''uuid''" ?args seals_v1]
      assembled ok1
    by simp
  from ok2 no_columns same_name reserved unknown_type no_id bad_rule constructed
  show ?thesis by simp
qed

text \<open>
  C5. \<^verbatim>\<open>validateUpdateTo\<close> fails, with the \<^verbatim>\<open>BadRequestError\<close> the source throws,
  if and only if the ids of the two tables differ; with equal ids it succeeds whatever
  else differs. When it fails, \<^verbatim>\<open>updateTo\<close> ends with that error before it has opened
  a connection, written a migration or called the data access object.
\<close>

theorem validateUpdateTo_iff_ids_differ:
  "(validateUpdateTo oldTable newTable = Inl BadRequestError \<longleftrightarrow>
      tbl_id oldTable \<noteq> tbl_id newTable) \<and>
   (tbl_id oldTable = tbl_id newTable \<longrightarrow> validateUpdateTo oldTable newTable = Inr ()) \<and>
   (tbl_id oldTable \<noteq> tbl_id newTable \<longrightarrow>
      updateTo dao oldTable newTable w = (Inl BadRequestError, w))"
  by (simp add: validateUpdateTo_def updateTo_def)

theorem validateUpdateTo_iff_ids_differ_witness:
  "tbl_id seals_v1 = tbl_id (seals ''seals'' [age\<lparr>col_type := ''text''\<rparr>]) \<and>
   validateUpdateTo seals_v1 (seals ''seals'' [age\<lparr>col_type := ''text''\<rparr>]) = Inr () \<and>
   tbl_id seals_v1 \<noteq> tbl_id (seals_v2\<lparr>tbl_id := ''T2''\<rparr>) \<and>
   validateUpdateTo seals_v1 (seals_v2\<lparr>tbl_id := ''T2''\<rparr>) = Inl BadRequestError \<and>
   updateTo recording_dao seals_v1 (seals_v2\<lparr>tbl_id := ''T2''\<rparr>) empty_world =
     (Inl BadRequestError, empty_world)"
  using validateUpdateTo_iff_ids_differ
      [of seals_v1 "seals ''seals'' [age\<lparr>col_type := ''text''\<rparr>]"]
    validateUpdateTo_iff_ids_differ
      [of seals_v1 "seals_v2\<lparr>tbl_id := ''T2''\<rparr>" recording_dao empty_world]
  by (simp add: example_defs)




text \<open>
  C8. The claim asks for the connection to be released on every way out of
  \<^verbatim>\<open>create\<close>, \<^verbatim>\<open>drop\<close> and \<^verbatim>\<open>updateTo\<close>. The source calls \<^verbatim>\<open>db.destroy()\<close> after
  \<^verbatim>\<open>await db.migrate.up()\<close> with no \<^verbatim>\<open>finally\<close>, under the comment "must close
  connection after running migrations or socket will hang": with a data access object
  whose call fails, each of the three methods ends with the error and one connection
  more open than before; with one whose calls succeed, the count is back where it was.
\<close>

theorem connection_left_open_on_failure:
  "updateTo failing_dao seals_v1 seals_v2 empty_world =
     (Inl DatabaseError,
      \<lparr>store = [], connections = 1,
       migration_files =
         [(''update_table_seals'',
           Module \<lparr>mig_up = update_up seals_v1 seals_v2,
                   mig_down = update_down seals_v1 seals_v2\<rparr>)],
       completed = 0\<rparr>) \<and>
   fst (create recorded_tables plain_quoted failing_dao seals_v1 empty_world) =
     Inl DatabaseError \<and>
   connections (snd (create recorded_tables plain_quoted failing_dao seals_v1 empty_world)) =
     1 \<and>
   fst (drop_table plain_quoted failing_dao seals_v1 empty_world) = Inl DatabaseError \<and>
   connections (snd (drop_table plain_quoted failing_dao seals_v1 empty_world)) = 1 \<and>
   fst (updateTo recording_dao seals_v1 seals_v2 empty_world) = Inr () \<and>
   connections (snd (updateTo recording_dao seals_v1 seals_v2 empty_world)) = 0"
proof -
  have up: "update_up seals_v1 seals_v2 =
      [RenameColumn ''seals'' ''age'' ''years'', AddColumn ''seals'' weight,
       UpdateTableMetaData seals_v2]"
    by (simp add: update_up_def diff_def renameTable_def example_defs)
  have same: "validateUpdateTo seals_v1 seals_v2 = Inr ()"
    by (simp add: validateUpdateTo_def example_defs)
  have name: "tbl_name seals_v1 = ''seals''"
    by (simp add: example_defs)
  have read: "quoted_calls plain_quoted seals_v1 =
      Some [DropTable ''seals'', DeleteTableMetaData ''T1'']"
    by (simp add: quoted_calls_def plain_quoted_def example_defs)
  have failing: "updateTo failing_dao seals_v1 seals_v2 empty_world =
     (Inl DatabaseError,
      \<lparr>store = [], connections = 1,
       migration_files =
         [(''update_table_seals'',
           Module \<lparr>mig_up = update_up seals_v1 seals_v2,
                   mig_down = update_down seals_v1 seals_v2\<rparr>)],
       completed = 0\<rparr>)"
    unfolding updateTo_def same
    by (simp add: up name migrate_up_def write_migration_def getNewConnection_def
        failing_dao_def empty_world_def)
  have recording: "updateTo recording_dao seals_v1 seals_v2 empty_world =
     (Inr (),
      \<lparr>store = update_up seals_v1 seals_v2, connections = 0,
       migration_files =
         [(''update_table_seals'',
           Module \<lparr>mig_up = update_up seals_v1 seals_v2,
                   mig_down = update_down seals_v1 seals_v2\<rparr>)],
       completed = 1\<rparr>)"
    unfolding updateTo_def same
    by (simp add: up name migrate_up_def write_migration_def getNewConnection_def destroy_def
        recording_dao_def empty_world_def)
  have creating: "create recorded_tables plain_quoted failing_dao seals_v1 empty_world =
     (Inl DatabaseError,
      \<lparr>store = [], connections = 1,
       migration_files =
         [(''create_table_seals'',
           Module \<lparr>mig_up = [CreateTable seals_v1, AddTableMetaData seals_v1],
                   mig_down = [DropTable ''seals'', DeleteTableMetaData ''T1'']\<rparr>)],
       completed = 0\<rparr>)"
    by (simp add: create_def read name migrate_up_def write_migration_def getNewConnection_def
        failing_dao_def recorded_tables_def empty_world_def)
  have dropping: "drop_table plain_quoted failing_dao seals_v1 empty_world =
     (Inl DatabaseError,
      \<lparr>store = [], connections = 1,
       migration_files =
         [(''drop_table_seals'',
           Module \<lparr>mig_up = [DropTable ''seals'', DeleteTableMetaData ''T1''],
                   mig_down = [CreateTable seals_v1, AddTableMetaData seals_v1]\<rparr>)],
       completed = 0\<rparr>)"
    by (simp add: drop_table_def read name migrate_up_def write_migration_def
        getNewConnection_def failing_dao_def empty_world_def)
  show ?thesis
    unfolding failing recording creating dropping by simp
qed

text \<open>
  C9, as amended. The constructed column has the id given, or the generated one when
  none is given, and the name and the type given; the options argument is accepted and
  not stored, so the column is the same whatever the options are.
\<close>

theorem Column_ignores_options:
  "col_id (Column a u) = (case arg_id a of None \<Rightarrow> u | Some i \<Rightarrow> i) \<and>
   col_name (Column a u) = arg_name a \<and>
   col_type (Column a u) = arg_type a \<and>
   Column (a\<lparr>arg_options := x\<rparr>) u = Column a u"
  by (simp add: Column_def)

theorem Column_ignores_options_witness:
  "Column \<lparr>arg_id = None, arg_name = ''weight'', arg_type = ''float'',
           arg_options = Some [(''min'', ''0'')]\<rparr> ''C2'' = weight \<and>
   Column \<lparr>arg_id = Some ''C1'', arg_name = ''age'', arg_type = ''int'',
           arg_options = Some [(''min'', ''0'')]\<rparr> ''C2'' = age"
  using Column_ignores_options
      [of "\<lparr>arg_id = None, arg_name = ''weight'', arg_type = ''float'',
             arg_options = Some [(''min'', ''0'')]\<rparr>" "''C2''"]
    Column_ignores_options
      [of "\<lparr>arg_id = Some ''C1'', arg_name = ''age'', arg_type = ''int'',
             arg_options = Some [(''min'', ''0'')]\<rparr>" "''C2''"]
  by (simp add: Column_def example_defs)

text \<open>
  C9 as the spec states it fails: the source has the assignment of \<^verbatim>\<open>this.options\<close>
  commented out. Two calls that differ in their options only construct the same column,
  so no attribute of it carries the options.
\<close>

theorem Column_options_counterexample:
  "Column \<lparr>arg_id = Some ''C1'', arg_name = ''age'', arg_type = ''int'',
           arg_options = Some [(''min'', ''0'')]\<rparr> ''C2'' =
   Column \<lparr>arg_id = Some ''C1'', arg_name = ''age'', arg_type = ''int'',
           arg_options = Some [(''min'', ''18'')]\<rparr> ''C2'' \<and>
   arg_options \<lparr>arg_id = Some ''C1'', arg_name = ''age'', arg_type = ''int'',
           arg_options = Some [(''min'', ''0'')]\<rparr> \<noteq>
   arg_options \<lparr>arg_id = Some ''C1'', arg_name = ''age'', arg_type = ''int'',
           arg_options = Some [(''min'', ''18'')]\<rparr>"
  by (simp add: Column_def)

text \<open>
  C10. Whatever the table, the registry and the rows, and whether the loop ends or is
  cut short by an exception, the rows afterwards have the keys they had, in the same
  order, and the entries under \<^verbatim>\<open>id\<close>, \<^verbatim>\<open>created_at\<close> and \<^verbatim>\<open>updated_at\<close> are the
  entries that were there: a lookup of a reserved key gives in every row what it gave
  before.
\<close>

theorem parseJsonColumns_keeps_reserved:
  "map (map fst) (snd (parseJsonColumns M P t rows)) = map (map fst) rows \<and>
   map (filter (\<lambda>kv. fst kv \<in> {''id'', ''created_at'', ''updated_at''}))
       (snd (parseJsonColumns M P t rows)) =
     map (filter (\<lambda>kv. fst kv \<in> {''id'', ''created_at'', ''updated_at''})) rows \<and>
   (\<forall>k \<in> {''id'', ''created_at'', ''updated_at''}.
      map (\<lambda>row. map_of row k) (snd (parseJsonColumns M P t rows)) =
        map (\<lambda>row. map_of row k) rows)"
proof -
  let ?R = "{''id'', ''created_at'', ''updated_at''}"
  let ?rows' = "snd (parseJsonColumns M P t rows)"
  note keeps = parseJsonColumns_keeps [of M P t rows]
  have "map (\<lambda>row. map_of row k) ?rows' = map (\<lambda>row. map_of row k) rows" if "k \<in> ?R" for k
  proof -
    have "map (\<lambda>row. map_of row k) ?rows' =
        map (\<lambda>row. map_of row k) (map (filter (\<lambda>kv. fst kv \<in> ?R)) ?rows')"
      by (rule map_of_reserved_rows [OF that, symmetric])
    also have "\<dots> = map (\<lambda>row. map_of row k) (map (filter (\<lambda>kv. fst kv \<in> ?R)) rows)"
      by (simp only: keeps [THEN conjunct2])
    also have "\<dots> = map (\<lambda>row. map_of row k) rows"
      by (rule map_of_reserved_rows [OF that])
    finally show ?thesis .
  qed
  with keeps show ?thesis by blast
qed

theorem parseJsonColumns_keeps_reserved_witness:
  "parseJsonColumns example_COLUMN_MAP example_JSON_parse seals_v4
     [[(''id'', JString ''[1,2]''), (''age'', JNumber 3), (''tags'', JString ''[1,2]''),
       (''created_at'', JString ''[1,2]'')],
      [(''id'', JNumber 2), (''tags'', JString ''not json''), (''updated_at'', JNumber 5)]] =
   (None,
     [[(''id'', JString ''[1,2]''), (''age'', JNumber 3), (''tags'', JArray [JNumber 1, JNumber 2]),
       (''created_at'', JString ''[1,2]'')],
      [(''id'', JNumber 2), (''tags'', JString ''not json''), (''updated_at'', JNumber 5)]]) \<and>
   map (\<lambda>row. map_of row ''id'')
     (snd (parseJsonColumns example_COLUMN_MAP example_JSON_parse seals_v4
       [[(''id'', JString ''[1,2]''), (''age'', JNumber 3), (''tags'', JString ''[1,2]''),
         (''created_at'', JString ''[1,2]'')],
        [(''id'', JNumber 2), (''tags'', JString ''not json''), (''updated_at'', JNumber 5)]])) =
     [Some (JString ''[1,2]''), Some (JNumber 2)]"
  using parseJsonColumns_keeps_reserved [of example_COLUMN_MAP example_JSON_parse seals_v4
      "[[(''id'', JString ''[1,2]''), (''age'', JNumber 3), (''tags'', JString ''[1,2]''),
         (''created_at'', JString ''[1,2]'')],
        [(''id'', JNumber 2), (''tags'', JString ''not json''), (''updated_at'', JNumber 5)]]"]
  by (simp add: parse_key_def getColumnByName_def example_JSON_parse_def example_defs)

text \<open>
  C7. The claim asks that every key of a JSON column is decoded, or left as it is when it
  cannot be decoded. The loop reads \<^verbatim>\<open>Column.COLUMN_MAP[columnType].isJson\<close> for every
  key that is not reserved; \<^verbatim>\<open>column?.type\<close> allows for a key that names no column,
  the next line does not, and throws. A row with such a key before its JSON column ends
  the loop with a \<^verbatim>\<open>TypeError\<close>, its JSON column not decoded although
  \<^verbatim>\<open>JSON.parse\<close> would decode it; without that key the column is decoded.
\<close>

theorem parseJsonColumns_unknown_key:
  "parseJsonColumns example_COLUMN_MAP example_JSON_parse seals_v4
     [[(''id'', JNumber 1), (''nickname'', JString ''Sammy''), (''tags'', JString ''[1,2]'')]] =
   (Some TypeError,
     [[(''id'', JNumber 1), (''nickname'', JString ''Sammy''), (''tags'', JString ''[1,2]'')]]) \<and>
   example_JSON_parse (JString ''[1,2]'') = Some (JArray [JNumber 1, JNumber 2]) \<and>
   parseJsonColumns example_COLUMN_MAP example_JSON_parse seals_v4
     [[(''id'', JNumber 1), (''tags'', JString ''[1,2]'')]] =
   (None, [[(''id'', JNumber 1), (''tags'', JArray [JNumber 1, JNumber 2])]])"
  by (simp add: parse_key_def getColumnByName_def example_JSON_parse_def example_defs)

text \<open>
  C4, as amended. For two valid revisions of a table with the same table id in each of
  which the column ids are pairwise distinct, and for every column id \<open>i\<close>: when both
  revisions have the id, under different names, the diff has exactly one rename that
  concerns the column, from the old name to the new one, and no add and no drop of it;
  when only the new revision has it, exactly one add, of the new column, and no rename
  and no drop; when only the old revision has it, exactly one drop, of the old name, and
  no rename and no add; when both have it under the same name, no operation concerns the
  column, whatever its types are.
\<close>

theorem one_operation_per_column:
  assumes "validate M oldTable = Inr ()"
    and "validate M newTable = Inr ()"
    and "tbl_id oldTable = tbl_id newTable"
    and "distinct (map col_id (columns oldTable))"
    and "distinct (map col_id (columns newTable))"
  shows "(getColumnById oldTable i = Some c \<and> getColumnById newTable i = Some n \<and>
          col_name c \<noteq> col_name n \<longrightarrow>
            filter (is_rename_of oldTable newTable i) (diff oldTable newTable) =
              [RenameColumn (tbl_name oldTable) (col_name c) (col_name n)] \<and>
            filter (is_add_of i) (diff oldTable newTable) = [] \<and>
            filter (is_drop_of oldTable i) (diff oldTable newTable) = []) \<and>
         (getColumnById oldTable i = None \<and> getColumnById newTable i = Some n \<longrightarrow>
            filter (is_add_of i) (diff oldTable newTable) = [AddColumn (tbl_name oldTable) n] \<and>
            filter (is_rename_of oldTable newTable i) (diff oldTable newTable) = [] \<and>
            filter (is_drop_of oldTable i) (diff oldTable newTable) = []) \<and>
         (getColumnById oldTable i = Some c \<and> getColumnById newTable i = None \<longrightarrow>
            filter (is_drop_of oldTable i) (diff oldTable newTable) =
              [DropColumn (tbl_name oldTable) (col_name c)] \<and>
            filter (is_rename_of oldTable newTable i) (diff oldTable newTable) = [] \<and>
            filter (is_add_of i) (diff oldTable newTable) = []) \<and>
         (getColumnById oldTable i = Some c \<and> getColumnById newTable i = Some n \<and>
          col_name c = col_name n \<longrightarrow>
            filter (is_rename_of oldTable newTable i) (diff oldTable newTable) = [] \<and>
            filter (is_add_of i) (diff oldTable newTable) = [] \<and>
            filter (is_drop_of oldTable i) (diff oldTable newTable) = [])"
proof -
  from assms(1) have old_names: "distinct (map col_name (columns oldTable))"
    by (simp add: validate_Inr_iff)
  from assms(2) have new_names: "distinct (map col_name (columns newTable))"
    by (simp add: validate_Inr_iff)
  note ops = operations_of_column [OF old_names new_names assms(4) assms(5), of i]
  show ?thesis
    unfolding ops by simp
qed

theorem one_operation_per_column_witness:
  "validate example_COLUMN_MAP seals_v1 = Inr () \<and>
   validate example_COLUMN_MAP seals_v2 = Inr () \<and>
   validate example_COLUMN_MAP seals_v3 = Inr () \<and>
   tbl_id seals_v1 = tbl_id seals_v2 \<and> tbl_id seals_v2 = tbl_id seals_v3 \<and>
   distinct (map col_id (columns seals_v1)) \<and>
   distinct (map col_id (columns seals_v2)) \<and>
   distinct (map col_id (columns seals_v3)) \<and>
   getColumnById seals_v1 ''C1'' = Some age \<and> getColumnById seals_v2 ''C1'' = Some years \<and>
   col_name age \<noteq> col_name years \<and>
   filter (is_rename_of seals_v1 seals_v2 ''C1'') (diff seals_v1 seals_v2) =
     [RenameColumn ''seals'' ''age'' ''years''] \<and>
   filter (is_add_of ''C1'') (diff seals_v1 seals_v2) = [] \<and>
   filter (is_drop_of seals_v1 ''C1'') (diff seals_v1 seals_v2) = [] \<and>
   getColumnById seals_v1 ''C2'' = None \<and> getColumnById seals_v2 ''C2'' = Some weight \<and>
   filter (is_add_of ''C2'') (diff seals_v1 seals_v2) = [AddColumn ''seals'' weight] \<and>
   filter (is_rename_of seals_v1 seals_v2 ''C2'') (diff seals_v1 seals_v2) = [] \<and>
   getColumnById seals_v3 ''C1'' = None \<and>
   filter (is_drop_of seals_v2 ''C1'') (diff seals_v2 seals_v3) =
     [DropColumn ''seals'' ''years''] \<and>
   filter (is_rename_of seals_v2 seals_v3 ''C1'') (diff seals_v2 seals_v3) = [] \<and>
   getColumnById seals_v3 ''C2'' = Some weight \<and>
   filter (is_rename_of seals_v2 seals_v3 ''C2'') (diff seals_v2 seals_v3) = [] \<and>
   filter (is_add_of ''C2'') (diff seals_v2 seals_v3) = [] \<and>
   filter (is_drop_of seals_v2 ''C2'') (diff seals_v2 seals_v3) = []"
proof -
  have v1: "validate example_COLUMN_MAP seals_v1 = Inr ()"
    by (simp add: validate_Inr_iff example_defs)
  have v2: "validate example_COLUMN_MAP seals_v2 = Inr ()"
    by (simp add: validate_Inr_iff example_defs)
  have v3: "validate example_COLUMN_MAP seals_v3 = Inr ()"
    by (simp add: validate_Inr_iff example_defs)
  have t12: "tbl_id seals_v1 = tbl_id seals_v2" and t23: "tbl_id seals_v2 = tbl_id seals_v3"
    by (simp_all add: example_defs)
  have d1: "distinct (map col_id (columns seals_v1))"
    and d2: "distinct (map col_id (columns seals_v2))"
    and d3: "distinct (map col_id (columns seals_v3))"
    by (simp_all add: example_defs)
  have found: "getColumnById seals_v1 ''C1'' = Some age" "getColumnById seals_v2 ''C1'' = Some years"
    "getColumnById seals_v1 ''C2'' = None" "getColumnById seals_v2 ''C2'' = Some weight"
    "getColumnById seals_v3 ''C1'' = None" "getColumnById seals_v3 ''C2'' = Some weight"
    by (simp_all add: getColumnById_def example_defs)
  have names: "col_name age \<noteq> col_name years" "col_name age = ''age''"
    "col_name years = ''years''" "col_name weight = col_name weight"
    "tbl_name seals_v1 = ''seals''" "tbl_name seals_v2 = ''seals''"
    by (simp_all add: example_defs)
  note renamed = one_operation_per_column [OF v1 v2 t12 d1 d2, of "''C1''" age years]
  note added = one_operation_per_column [OF v1 v2 t12 d1 d2, of "''C2''" age weight]
  note dropped = one_operation_per_column [OF v2 v3 t23 d2 d3, of "''C1''" years weight]
  note kept = one_operation_per_column [OF v2 v3 t23 d2 d3, of "''C2''" weight weight]
  from renamed added dropped kept v1 v2 v3 t12 t23 d1 d2 d3 found names
  show ?thesis by simp
qed

text \<open>
  C4 as the spec states it, for every pair of revisions with the same table id, fails:
  a valid table can hold a column id twice. With \<^verbatim>\<open>C2\<close> absent from the old table and
  held by two columns of the new one, the diff has two adds for the id.
\<close>

theorem one_operation_per_column_counterexample:
  "validate example_COLUMN_MAP seals_v1 = Inr () \<and>
   validate example_COLUMN_MAP seals_twice = Inr () \<and>
   tbl_id seals_v1 = tbl_id seals_twice \<and>
   getColumnById seals_v1 ''C2'' = None \<and>
   getColumnById seals_twice ''C2'' = Some weight \<and>
   filter (is_add_of ''C2'') (diff seals_v1 seals_twice) =
     [AddColumn ''seals'' weight, AddColumn ''seals'' mass] \<and>
   length (filter (is_add_of ''C2'') (diff seals_v1 seals_twice)) \<noteq> 1"
proof -
  have v1: "validate example_COLUMN_MAP seals_v1 = Inr ()"
    by (simp add: validate_Inr_iff example_defs)
  have v2: "validate example_COLUMN_MAP seals_twice = Inr ()"
    by (simp add: validate_Inr_iff example_defs)
  have ops: "diff seals_v1 seals_twice = [AddColumn ''seals'' weight, AddColumn ''seals'' mass]"
    by (simp add: diff_def renameTable_def example_defs)
  show ?thesis
    unfolding ops using v1 v2 by (simp add: getColumnById_def example_defs)
qed

end
